theory Spec2Isabelle
  imports Complex_Main "HOL-Library.AList"
begin

section \<open>Data model of source/rmg/model.py\<close>

text \<open>
  Species and reactions are created outside model.py and only referenced by it. A species
  is an identity together with the \<open>reactive\<close> flag that \<open>initialize\<close> and \<open>enlarge\<close>
  read; a reaction is an identity with its ordered reactants and products. Python's
  \<open>x in list\<close>, \<open>list.remove(x)\<close> and dictionary keys compare these objects; the model
  compares them structurally.

  Python floats are read as real numbers throughout: rounding, infinities and NaN are not
  modelled.
\<close>

datatype species = Species (ident: nat) (reactive: bool)

datatype reaction = Reaction (rxn_id: nat) (reactants: "species list") (products: "species list")

datatype error =
    ValueError
  | IndexError
  | KeyError
  | TypeError
  | AttributeError
  | InvalidReactionSystemException string

record ReactionModel =
  species :: "species list"
  reactions :: "reaction list"

record CoreEdgeReactionModel =
  core :: ReactionModel
  edge :: ReactionModel
  fluxTolerance :: real
  absoluteTolerance :: real
  relativeTolerance :: real

text \<open>The two constructors: a missing argument becomes an empty list, respectively an
  empty \<open>ReactionModel\<close>.\<close>

definition ReactionModel_init :: "species list option \<Rightarrow> reaction list option \<Rightarrow> ReactionModel" where
  "ReactionModel_init sp rx =
     \<lparr> species = (case sp of None \<Rightarrow> [] | Some l \<Rightarrow> l),
       reactions = (case rx of None \<Rightarrow> [] | Some l \<Rightarrow> l) \<rparr>"

definition CoreEdgeReactionModel_init ::
  "ReactionModel option \<Rightarrow> ReactionModel option \<Rightarrow> CoreEdgeReactionModel" where
  "CoreEdgeReactionModel_init c e =
     \<lparr> core = (case c of None \<Rightarrow> ReactionModel_init None None | Some m \<Rightarrow> m),
       edge = (case e of None \<Rightarrow> ReactionModel_init None None | Some m \<Rightarrow> m),
       fluxTolerance = 1,
       absoluteTolerance = 1 / 10 ^ 8,
       relativeTolerance = 1 / 10 ^ 4 \<rparr>"

section \<open>Moving species and reactions between core and edge\<close>

text \<open>\<open>addReactionToCore\<close>: append to the core reactions, and remove the first occurrence
  from the edge reactions when the reaction is there.\<close>

definition addReactionToCore :: "reaction \<Rightarrow> CoreEdgeReactionModel \<Rightarrow> CoreEdgeReactionModel" where
  "addReactionToCore rxn m =
     (let m1 = m\<lparr>core := (core m)\<lparr>reactions := reactions (core m) @ [rxn]\<rparr>\<rparr>
      in if rxn \<in> set (reactions (edge m1))
         then m1\<lparr>edge := (edge m1)\<lparr>reactions := remove1 rxn (reactions (edge m1))\<rparr>\<rparr>
         else m1)"

definition addReactionToEdge :: "reaction \<Rightarrow> CoreEdgeReactionModel \<Rightarrow> CoreEdgeReactionModel" where
  "addReactionToEdge rxn m = m\<lparr>edge := (edge m)\<lparr>reactions := reactions (edge m) @ [rxn]\<rparr>\<rparr>"

definition addSpeciesToEdge :: "species \<Rightarrow> CoreEdgeReactionModel \<Rightarrow> CoreEdgeReactionModel" where
  "addSpeciesToEdge spec m = m\<lparr>edge := (edge m)\<lparr>species := species (edge m) @ [spec]\<rparr>\<rparr>"

text \<open>The test that \<open>addSpeciesToCore\<close> runs on each edge reaction: the flag \<open>allCore\<close>
  starts true and is cleared by every reactant and every product that is not a core
  species.\<close>

definition allCore :: "species list \<Rightarrow> reaction \<Rightarrow> bool" where
  "allCore coreSpecies rxn =
     fold (\<lambda>product a. if product \<notin> set coreSpecies then False else a) (products rxn)
       (fold (\<lambda>reactant a. if reactant \<notin> set coreSpecies then False else a) (reactants rxn) True)"

text \<open>\<open>addSpeciesToCore\<close>: the species is appended to the core unconditionally. Only when
  it was an edge species is it removed there (first occurrence), and only then are the
  edge reactions scanned, once, and the ones that have become all-core moved.\<close>

definition addSpeciesToCore :: "species \<Rightarrow> CoreEdgeReactionModel \<Rightarrow> CoreEdgeReactionModel" where
  "addSpeciesToCore spec m =
     (let m1 = m\<lparr>core := (core m)\<lparr>species := species (core m) @ [spec]\<rparr>\<rparr>
      in if spec \<in> set (species (edge m1)) then
           (let m2 = m1\<lparr>edge := (edge m1)\<lparr>species := remove1 spec (species (edge m1))\<rparr>\<rparr>;
                rxnList = filter (allCore (species (core m2))) (reactions (edge m2))
            in fold addReactionToCore rxnList m2)
         else m1)"

section \<open>initialize and enlarge\<close>

text \<open>The kinetics database is a separate module; its \<open>getReactions\<close> is taken as a
  parameter: from a list of one or two species to the list of reactions found.\<close>

type_synonym rate_provider = "species list \<Rightarrow> reaction list"

text \<open>The body that \<open>initialize\<close> runs for one species of a discovered reaction: it becomes
  an edge species unless it is already an edge or a core species.\<close>

definition initialize_spec :: "species \<Rightarrow> CoreEdgeReactionModel \<Rightarrow> CoreEdgeReactionModel" where
  "initialize_spec spec m =
     (if spec \<notin> set (species (edge m)) \<and> spec \<notin> set (species (core m))
      then addSpeciesToEdge spec m else m)"

definition initialize_rxn :: "reaction \<Rightarrow> CoreEdgeReactionModel \<Rightarrow> CoreEdgeReactionModel" where
  "initialize_rxn rxn m =
     addReactionToEdge rxn
       (fold initialize_spec (products rxn) (fold initialize_spec (reactants rxn) m))"

definition initialize_species1 ::
  "rate_provider \<Rightarrow> species \<Rightarrow> CoreEdgeReactionModel \<Rightarrow> CoreEdgeReactionModel" where
  "initialize_species1 getReactions species1 m =
     (let rxnList =
            (if reactive species1
             then getReactions [species1] @
                  concat (map (\<lambda>species2. getReactions [species1, species2]) (species (core m)))
             else []);
          m1 = addSpeciesToCore species1 m
      in fold initialize_rxn rxnList m1)"

definition initialize ::
  "rate_provider \<Rightarrow> species list \<Rightarrow> CoreEdgeReactionModel \<Rightarrow> CoreEdgeReactionModel" where
  "initialize getReactions coreSpecies m = fold (initialize_species1 getReactions) coreSpecies m"

text \<open>\<open>enlarge\<close> classifies each discovered reaction: the flag \<open>allSpeciesInCore\<close> is
  threaded through both species loops together with the model.\<close>

definition enlarge_spec ::
  "species \<Rightarrow> bool \<times> CoreEdgeReactionModel \<Rightarrow> bool \<times> CoreEdgeReactionModel" where
  "enlarge_spec spec st =
     (case st of (allSpeciesInCore, m) \<Rightarrow>
        (let a = (if spec \<notin> set (species (core m)) then False else allSpeciesInCore);
             m' = (if spec \<notin> set (species (edge m)) \<and> spec \<notin> set (species (core m))
                   then addSpeciesToEdge spec m else m)
         in (a, m')))"

definition enlarge_rxn :: "reaction \<Rightarrow> CoreEdgeReactionModel \<Rightarrow> CoreEdgeReactionModel" where
  "enlarge_rxn rxn m =
     (case fold enlarge_spec (products rxn) (fold enlarge_spec (reactants rxn) (True, m)) of
        (allSpeciesInCore, m') \<Rightarrow>
          if allSpeciesInCore then addReactionToCore rxn m' else addReactionToEdge rxn m')"

definition enlarge ::
  "rate_provider \<Rightarrow> species \<Rightarrow> CoreEdgeReactionModel \<Rightarrow> CoreEdgeReactionModel" where
  "enlarge getReactions newSpecies m =
     (let rxnList =
            getReactions [newSpecies] @
            concat (map (\<lambda>coreSpecies. if reactive coreSpecies
                                        then getReactions [newSpecies, coreSpecies] else [])
                        (species (core m)));
          m1 = addSpeciesToCore newSpecies m
      in fold enlarge_rxn rxnList m1)"

section \<open>The invariants of the core-edge partition\<close>

text \<open>The four invariants of the data model, read on the lists that the code keeps. The
  reactions they speak about are the reactions of the model, core or edge.\<close>

definition species_of :: "reaction \<Rightarrow> species set" where
  "species_of rxn = set (reactants rxn) \<union> set (products rxn)"

definition invariant1 :: "CoreEdgeReactionModel \<Rightarrow> bool" where
  "invariant1 m = (set (species (core m)) \<inter> set (species (edge m)) = {})"

definition invariant2 :: "CoreEdgeReactionModel \<Rightarrow> bool" where
  "invariant2 m = (set (reactions (core m)) \<inter> set (reactions (edge m)) = {})"

definition invariant3 :: "CoreEdgeReactionModel \<Rightarrow> bool" where
  "invariant3 m =
     (\<forall>rxn \<in> set (reactions (core m)) \<union> set (reactions (edge m)).
        (rxn \<in> set (reactions (core m))) = (species_of rxn \<subseteq> set (species (core m))) \<and>
        (\<not> species_of rxn \<subseteq> set (species (core m)) \<and>
         species_of rxn \<inter> (set (species (core m)) \<union> set (species (edge m))) \<noteq> {}
           \<longrightarrow> rxn \<in> set (reactions (edge m))))"

definition invariant4 :: "CoreEdgeReactionModel \<Rightarrow> bool" where
  "invariant4 m =
     (\<forall>rxn \<in> set (reactions (core m)) \<union> set (reactions (edge m)).
        species_of rxn \<subseteq> set (species (core m)) \<union> set (species (edge m)))"

definition invariants :: "CoreEdgeReactionModel \<Rightarrow> bool" where
  "invariants m = (invariant1 m \<and> invariant2 m \<and> invariant3 m \<and> invariant4 m)"

section \<open>CoreEdgeReactionModel.isValid\<close>

text \<open>A reaction's \<open>getRate(T, P, conc)\<close> belongs to the reaction module; it is a
  parameter, a function of the reaction and the conditions.\<close>

type_synonym rate_law = "reaction \<Rightarrow> real \<Rightarrow> real \<Rightarrow> (species \<rightharpoonup> real) \<Rightarrow> real"

text \<open>Python's \<open>max\<close> of a list: ValueError on the empty list; otherwise the first item
  is kept until a later item compares greater. Tuples compare by their first component,
  then by the second.\<close>

fun py_max :: "('a \<Rightarrow> 'a \<Rightarrow> bool) \<Rightarrow> 'a list \<Rightarrow> error + 'a" where
  "py_max gt [] = Inl ValueError"
| "py_max gt (x # xs) = Inr (fold (\<lambda>item m. if gt item m then item else m) xs x)"

definition tuple_gt :: "('b \<Rightarrow> 'b \<Rightarrow> bool) \<Rightarrow> real \<times> 'b \<Rightarrow> real \<times> 'b \<Rightarrow> bool" where
  "tuple_gt gt2 p q = (fst p > fst q \<or> (fst p = fst q \<and> gt2 (snd p) (snd q)))"

text \<open>How two species objects compare is decided outside model.py; the model orders them
  by identity. \<open>isValid\<close> discards the species of the maximum, so its result does not
  depend on this choice.\<close>

definition species_gt :: "species \<Rightarrow> species \<Rightarrow> bool" where
  "species_gt x y = (ident x > ident y)"

text \<open>The dictionary \<open>rxnFlux\<close>: one entry per core reaction, a repeated reaction
  overwriting its entry.\<close>

definition rxnFlux_of ::
  "rate_law \<Rightarrow> reaction list \<Rightarrow> real \<Rightarrow> real \<Rightarrow> (species \<rightharpoonup> real) \<Rightarrow> (reaction \<times> real) list" where
  "rxnFlux_of getRate rxns T P conc =
     fold (\<lambda>rxn d. AList.update rxn (getRate rxn T P conc) d) rxns []"

text \<open>The two inner loops of the species-flux accumulation. A reactant that is an edge
  species has the reaction's flux subtracted from its entry, or gets the negated flux as
  a new entry when it has none (the KeyError handler); a product likewise with the flux
  added.\<close>

fun flux_reactants ::
  "species list \<Rightarrow> (reaction \<times> real) list \<Rightarrow> reaction \<Rightarrow> species list \<Rightarrow>
   (species \<times> real) list \<Rightarrow> error + (species \<times> real) list" where
  "flux_reactants edgeSpecies rxnFlux rxn [] specFlux = Inr specFlux"
| "flux_reactants edgeSpecies rxnFlux rxn (reactant # rest) specFlux =
     (if reactant \<in> set edgeSpecies then
        (case map_of rxnFlux rxn of
           None \<Rightarrow> Inl KeyError
         | Some r \<Rightarrow>
             flux_reactants edgeSpecies rxnFlux rxn rest
               (case map_of specFlux reactant of
                  Some f \<Rightarrow> AList.update reactant (f - r) specFlux
                | None \<Rightarrow> AList.update reactant (- r) specFlux))
      else flux_reactants edgeSpecies rxnFlux rxn rest specFlux)"

fun flux_products ::
  "species list \<Rightarrow> (reaction \<times> real) list \<Rightarrow> reaction \<Rightarrow> species list \<Rightarrow>
   (species \<times> real) list \<Rightarrow> error + (species \<times> real) list" where
  "flux_products edgeSpecies rxnFlux rxn [] specFlux = Inr specFlux"
| "flux_products edgeSpecies rxnFlux rxn (product # rest) specFlux =
     (if product \<in> set edgeSpecies then
        (case map_of rxnFlux rxn of
           None \<Rightarrow> Inl KeyError
         | Some r \<Rightarrow>
             flux_products edgeSpecies rxnFlux rxn rest
               (case map_of specFlux product of
                  Some f \<Rightarrow> AList.update product (f + r) specFlux
                | None \<Rightarrow> AList.update product r specFlux))
      else flux_products edgeSpecies rxnFlux rxn rest specFlux)"

fun specFlux_of ::
  "species list \<Rightarrow> (reaction \<times> real) list \<Rightarrow> reaction list \<Rightarrow>
   (species \<times> real) list \<Rightarrow> error + (species \<times> real) list" where
  "specFlux_of edgeSpecies rxnFlux [] specFlux = Inr specFlux"
| "specFlux_of edgeSpecies rxnFlux (rxn # rest) specFlux =
     (case flux_reactants edgeSpecies rxnFlux rxn (reactants rxn) specFlux of
        Inl e \<Rightarrow> Inl e
      | Inr d1 \<Rightarrow>
          (case flux_products edgeSpecies rxnFlux rxn (products rxn) d1 of
             Inl e \<Rightarrow> Inl e
           | Inr d2 \<Rightarrow> specFlux_of edgeSpecies rxnFlux rest d2))"

definition charFlux_of ::
  "rate_law \<Rightarrow> CoreEdgeReactionModel \<Rightarrow> real \<Rightarrow> real \<Rightarrow> (species \<rightharpoonup> real) \<Rightarrow> real" where
  "charFlux_of getRate m T P conc =
     fluxTolerance m *
     sqrt (sum_list (map (\<lambda>flux. flux ^ 2)
                         (map snd (rxnFlux_of getRate (reactions (core m)) T P conc))))"

text \<open>\<open>isValid\<close> returns a bare boolean on both of its return statements.\<close>

definition isValid ::
  "rate_law \<Rightarrow> CoreEdgeReactionModel \<Rightarrow> real \<Rightarrow> real \<Rightarrow> (species \<rightharpoonup> real) \<Rightarrow> error + bool" where
  "isValid getRate m T P conc =
     (let rxnFlux = rxnFlux_of getRate (reactions (core m)) T P conc;
          charFlux = charFlux_of getRate m T P conc
      in case specFlux_of (species (edge m)) rxnFlux (reactions (core m)) [] of
           Inl e \<Rightarrow> Inl e
         | Inr specFlux \<Rightarrow>
             (case py_max (tuple_gt species_gt) (map (\<lambda>(x, f). (f, x)) specFlux) of
                Inl e \<Rightarrow> Inl e
              | Inr (maxSpecFlux, maxSpec) \<Rightarrow>
                  if maxSpecFlux > charFlux then Inr False else Inr True))"

definition getLists :: "CoreEdgeReactionModel \<Rightarrow> species list \<times> reaction list" where
  "getLists m = (species (core m) @ species (edge m), reactions (core m) @ reactions (edge m))"

definition model_getReactionRates ::
  "rate_law \<Rightarrow> CoreEdgeReactionModel \<Rightarrow> real \<Rightarrow> real \<Rightarrow> (species \<rightharpoonup> real) \<Rightarrow> real list" where
  "model_getReactionRates getRate m T P Ci =
     (case getLists m of (speciesList, reactionList) \<Rightarrow>
        map (\<lambda>rxn. getRate rxn T P Ci) reactionList)"

section \<open>Temperature and pressure profiles\<close>

record 'v TemperatureModel =
  Ttype :: string
  temperatures :: "(real \<times> 'v) list"

record 'v PressureModel =
  Ptype :: string
  pressures :: "(real \<times> 'v) list"

definition TemperatureModel_init :: "'v TemperatureModel" where
  "TemperatureModel_init = \<lparr> Ttype = [], temperatures = [] \<rparr>"

definition isIsothermal :: "'v TemperatureModel \<Rightarrow> bool" where
  "isIsothermal tm = (Ttype tm = ''isothermal'')"

definition setIsothermal :: "'v \<Rightarrow> 'v TemperatureModel \<Rightarrow> 'v TemperatureModel" where
  "setIsothermal temperature tm = tm\<lparr>Ttype := ''isothermal'', temperatures := [(0, temperature)]\<rparr>"

text \<open>\<open>getTemperature\<close> reads the second entry of the first breakpoint, which raises
  IndexError on an empty list; a model that is not isothermal gives None.\<close>

definition getTemperature :: "'v TemperatureModel \<Rightarrow> real \<Rightarrow> error + 'v option" where
  "getTemperature tm time =
     (if isIsothermal tm
      then (case temperatures tm of [] \<Rightarrow> Inl IndexError | row # _ \<Rightarrow> Inr (Some (snd row)))
      else Inr None)"

definition PressureModel_init :: "'v PressureModel" where
  "PressureModel_init = \<lparr> Ptype = [], pressures = [] \<rparr>"

definition isIsobaric :: "'v PressureModel \<Rightarrow> bool" where
  "isIsobaric pm = (Ptype pm = ''isobaric'')"

definition setIsobaric :: "'v \<Rightarrow> 'v PressureModel \<Rightarrow> 'v PressureModel" where
  "setIsobaric pressure pm = pm\<lparr>Ptype := ''isobaric'', pressures := [(0, pressure)]\<rparr>"

definition getPressure :: "'v PressureModel \<Rightarrow> real \<Rightarrow> error + 'v option" where
  "getPressure pm time =
     (if isIsobaric pm
      then (case pressures pm of [] \<Rightarrow> Inl IndexError | row # _ \<Rightarrow> Inr (Some (snd row)))
      else Inr None)"

section \<open>ReactionSystem and BatchReactor\<close>

text \<open>model.py has no class for the volume model; its type is left open.\<close>

record 'vm ReactionSystem =
  temperatureModel :: "real TemperatureModel option"
  pressureModel :: "real PressureModel option"
  volumeModel :: "'vm option"
  initialConcentration :: "species \<rightharpoonup> real"

definition setModels ::
  "real TemperatureModel option \<Rightarrow> real PressureModel option \<Rightarrow> 'vm option \<Rightarrow>
   'vm ReactionSystem \<Rightarrow> error + 'vm ReactionSystem" where
  "setModels tm pm vm self =
     (if tm \<noteq> None \<and> pm \<noteq> None \<and> vm \<noteq> None
      then Inl (InvalidReactionSystemException
                  ''Attempted to specify temperature, pressure, and volume models; can only specify two of these at a time.'')
      else Inr (self\<lparr>temperatureModel := tm, pressureModel := pm, volumeModel := vm\<rparr>))"

definition ReactionSystem_init ::
  "real TemperatureModel option \<Rightarrow> real PressureModel option \<Rightarrow> 'vm option \<Rightarrow>
   (species \<rightharpoonup> real) option \<Rightarrow> error + 'vm ReactionSystem" where
  "ReactionSystem_init tm pm vm ic =
     (case setModels tm pm vm
             \<lparr> temperatureModel = None, pressureModel = None, volumeModel = None,
               initialConcentration = Map.empty \<rparr> of
        Inl e \<Rightarrow> Inl e
      | Inr self \<Rightarrow>
          Inr (self\<lparr>initialConcentration := (case ic of None \<Rightarrow> Map.empty | Some d \<Rightarrow> d)\<rparr>))"

definition BatchReactor_init ::
  "real TemperatureModel option \<Rightarrow> real PressureModel option \<Rightarrow> 'vm option \<Rightarrow>
   (species \<rightharpoonup> real) option \<Rightarrow> error + 'vm ReactionSystem" where
  "BatchReactor_init tm pm vm ic = ReactionSystem_init tm pm vm ic"

section \<open>BatchReactor.isModelValid and BatchReactor.simulate\<close>

text \<open>\<open>BatchReactor.getReactionRates\<close> builds the concentration dictionary from the mole
  numbers, one core species after the other (reading \<open>Ni[i]\<close> raises IndexError when
  \<open>Ni\<close> is too short), and asks the model for the rates of all reactions, core then
  edge. A zero volume, which floating point division turns into an infinity or a NaN, is
  outside the model; no theorem below depends on the value of a concentration.\<close>

definition concentrations :: "CoreEdgeReactionModel \<Rightarrow> real \<Rightarrow> real list \<Rightarrow> (species \<rightharpoonup> real)" where
  "concentrations m V Ni =
     fold (\<lambda>(spec, n) Ci. Ci(spec \<mapsto> n / V)) (zip (species (core m)) Ni) Map.empty"

definition getReactionRates ::
  "rate_law \<Rightarrow> real \<Rightarrow> real \<Rightarrow> real \<Rightarrow> real list \<Rightarrow> CoreEdgeReactionModel \<Rightarrow> error + real list" where
  "getReactionRates getRate P V T Ni m =
     (if length Ni < length (species (core m)) then Inl IndexError
      else Inr (model_getReactionRates getRate m T P (concentrations m V Ni)))"

text \<open>\<open>numpy.dot\<close> of a matrix, kept as the list of its rows, and a vector: one sum of
  products per row, and ValueError when a row and the vector differ in length.\<close>

definition numpy_dot :: "real list list \<Rightarrow> real list \<Rightarrow> error + real list" where
  "numpy_dot A x =
     (if list_all (\<lambda>row. length row = length x) A
      then Inr (map (\<lambda>row. sum_list (map2 (*) row x)) A)
      else Inl ValueError)"

definition nat_gt :: "nat \<Rightarrow> nat \<Rightarrow> bool" where
  "nat_gt i j = (i > j)"

text \<open>\<open>isModelValid\<close>: the characteristic flux is taken from the first
  \<open>len(model.core.reactions)\<close> rates; the species fluxes are the product of the whole
  stoichiometry matrix with the whole rate vector, of which the rows after the core
  species are searched for the maximum.\<close>

definition isModelValid ::
  "rate_law \<Rightarrow> CoreEdgeReactionModel \<Rightarrow> real \<Rightarrow> real \<Rightarrow> real \<Rightarrow> real list \<Rightarrow> real list list \<Rightarrow>
   error + bool \<times> species option" where
  "isModelValid getRate m P V T Ni stoichiometry =
     (case getLists m of (speciesList, reactionList) \<Rightarrow>
        (case getReactionRates getRate P V T Ni m of
           Inl e \<Rightarrow> Inl e
         | Inr rxnRates \<Rightarrow>
             (let charFlux = fluxTolerance m *
                    sqrt (sum_list (map (\<lambda>x. x ^ 2) (take (length (reactions (core m))) rxnRates)))
              in case numpy_dot stoichiometry rxnRates of
                   Inl e \<Rightarrow> Inl e
                 | Inr dNidt \<Rightarrow>
                     (case py_max (tuple_gt nat_gt)
                             (map (\<lambda>(i, value). (value, i + length (species (core m))))
                                  (enumerate 0 (drop (length (species (core m))) dNidt))) of
                        Inl e \<Rightarrow> Inl e
                      | Inr (maxSpeciesFlux, maxSpecies) \<Rightarrow>
                          if maxSpeciesFlux > charFlux then
                            (if maxSpecies < length speciesList
                             then Inr (False, Some (speciesList ! maxSpecies))
                             else Inl IndexError)
                          else Inr (True, None)))))"

text \<open>Modelled from the spec: \<open>getStoichiometricCoefficient\<close> is a method of the reaction
  class, which is not part of model.py. The coefficient of a species in a reaction is
  negative when the species is net consumed, positive when it is net produced and zero
  when it is absent: the number of its occurrences among the products minus the number
  among the reactants.\<close>

definition getStoichiometricCoefficient :: "reaction \<Rightarrow> species \<Rightarrow> int" where
  "getStoichiometricCoefficient rxn spec =
     int (count_list (products rxn) spec) - int (count_list (reactants rxn) spec)"

text \<open>The stoichiometry matrix that \<open>simulate\<close> assembles: one row per species (core, then
  edge), one column per reaction (core, then edge).\<close>

definition stoichiometry_of :: "CoreEdgeReactionModel \<Rightarrow> real list list" where
  "stoichiometry_of m =
     (case getLists m of (speciesList, reactionList) \<Rightarrow>
        map (\<lambda>spec. map (\<lambda>rxn. real_of_int (getStoichiometricCoefficient rxn spec)) reactionList)
            speciesList)"

text \<open>The integrator is scipy's \<open>odeint\<close>, called on the residual function over the span
  from \<open>t0\<close> to \<open>tf\<close>. It is a parameter: from the state vector and the span to the last
  row of the solution and the last entry of \<open>tcur\<close>.\<close>

type_synonym integrator = "real list \<Rightarrow> real \<Rightarrow> real \<Rightarrow> real list \<times> real"

text \<open>The time loop of \<open>simulate\<close>. The loop need not end (the next span comes from the
  integrator), so not returning is the value \<open>None\<close>. The initial vector \<open>y0\<close> is the list
  built before the loop; the loop rebinds \<open>y\<close> to the integrator's result and never
  changes \<open>y0\<close>. Unpacking \<open>P, V, T\<close> from a vector of fewer than three entries raises
  ValueError, reading entry 3 of a vector without one raises IndexError. Next to the
  value returned, the result counts the calls of the integrator made during the run.\<close>

partial_function (option) simulate_loop ::
  "rate_law \<Rightarrow> integrator \<Rightarrow> CoreEdgeReactionModel \<Rightarrow> real list list \<Rightarrow> real list \<Rightarrow>
   nat \<Rightarrow> real \<Rightarrow> real \<Rightarrow> real list \<Rightarrow> ((error + bool \<times> species option) \<times> nat) option" where
  "simulate_loop getRate odeint m stoichiometry y0 n t0 tf y =
     (if t0 < 1 then
        (case odeint y t0 tf of (y', tcur) \<Rightarrow>
           if length y' < 3 then Some (Inl ValueError, Suc n)
           else
             (case isModelValid getRate m (y' ! 0) (y' ! 1) (y' ! 2) (drop 3 y') stoichiometry of
                Inl e \<Rightarrow> Some (Inl e, Suc n)
              | Inr (valid, newSpecies) \<Rightarrow>
                  if \<not> valid then Some (Inr (False, newSpecies), Suc n)
                  else if length y' \<le> 3 \<or> length y0 \<le> 3 then Some (Inl IndexError, Suc n)
                  else if y' ! 3 < 0.1 * y0 ! 3 then Some (Inr (True, None), Suc n)
                  else simulate_loop getRate odeint m stoichiometry y0 (Suc n) tf (tcur * 1.1) y'))
      else Some (Inr (True, None), n))"

definition simulate ::
  "rate_law \<Rightarrow> integrator \<Rightarrow> 'vm ReactionSystem \<Rightarrow> CoreEdgeReactionModel \<Rightarrow>
   ((error + bool \<times> species option) \<times> nat) option" where
  "simulate getRate odeint self m =
     (let stoichiometry = stoichiometry_of m
      in case pressureModel self of
           None \<Rightarrow> Some (Inl AttributeError, 0)
         | Some pm \<Rightarrow>
             (case getPressure pm 0 of
                Inl e \<Rightarrow> Some (Inl e, 0)
              | Inr None \<Rightarrow> Some (Inl TypeError, 0)
              | Inr (Some P) \<Rightarrow>
                  (case temperatureModel self of
                     None \<Rightarrow> Some (Inl AttributeError, 0)
                   | Some tm \<Rightarrow>
                       (case getTemperature tm 0 of
                          Inl e \<Rightarrow> Some (Inl e, 0)
                        | Inr None \<Rightarrow> Some (Inl TypeError, 0)
                        | Inr (Some T) \<Rightarrow>
                            (let V = 1;
                                 Ni = map (\<lambda>spec. case initialConcentration self spec of
                                                     Some c \<Rightarrow> c * V | None \<Rightarrow> 0)
                                          (species (core m))
                             in case isModelValid getRate m P V T Ni stoichiometry of
                                  Inl e \<Rightarrow> Some (Inl e, 0)
                                | Inr (valid, newSpecies) \<Rightarrow>
                                    if \<not> valid then Some (Inr (False, newSpecies), 0)
                                    else simulate_loop getRate odeint m stoichiometry
                                           ([P, V, T] @ Ni) 0
                                           (1 / 10 ^ 20) (1 / 10 ^ 20 * 1.1) ([P, V, T] @ Ni))))))"

text \<open>The state of the time loop at the start of a span is the triple \<open>(t0, tf, y)\<close>.
  \<open>next_span\<close> is the state after one span that the loop neither returns from nor fails
  on: the span is integrated, the validity check passes and the first core species is
  not yet depleted. \<open>spans k\<close> iterates it.\<close>

definition next_span ::
  "rate_law \<Rightarrow> integrator \<Rightarrow> CoreEdgeReactionModel \<Rightarrow> real list list \<Rightarrow> real list \<Rightarrow>
   real \<times> real \<times> real list \<Rightarrow> (real \<times> real \<times> real list) option" where
  "next_span getRate odeint m stoichiometry y0 s =
     (case s of (t0, tf, y) \<Rightarrow>
        (case odeint y t0 tf of (y', tcur) \<Rightarrow>
           if t0 < 1 \<and> 3 < length y' \<and> 3 < length y0 \<and>
              map_sum (\<lambda>e. e) fst
                (isModelValid getRate m (y' ! 0) (y' ! 1) (y' ! 2) (drop 3 y') stoichiometry)
                = Inr True \<and>
              \<not> y' ! 3 < 0.1 * y0 ! 3
           then Some (tf, tcur * 1.1, y') else None))"

fun spans ::
  "rate_law \<Rightarrow> integrator \<Rightarrow> CoreEdgeReactionModel \<Rightarrow> real list list \<Rightarrow> real list \<Rightarrow>
   nat \<Rightarrow> real \<times> real \<times> real list \<Rightarrow> (real \<times> real \<times> real list) option" where
  "spans getRate odeint m stoichiometry y0 0 s = Some s"
| "spans getRate odeint m stoichiometry y0 (Suc k) s =
     (case next_span getRate odeint m stoichiometry y0 s of
        None \<Rightarrow> None
      | Some s' \<Rightarrow> spans getRate odeint m stoichiometry y0 k s')"

section \<open>Net flux of a species\<close>

text \<open>The net flux that a list of reactions gives a species, in the words of the
  specification: every reaction contributes its rate times the stoichiometric coefficient
  of the species, so a reactant occurrence subtracts the rate and a product occurrence
  adds it. The theorems compare the validity checks of the code with this sum.\<close>

definition net_flux :: "(reaction \<Rightarrow> real) \<Rightarrow> reaction list \<Rightarrow> species \<Rightarrow> real" where
  "net_flux rate rxns spec =
     sum_list (map (\<lambda>rxn. real_of_int (getStoichiometricCoefficient rxn spec) * rate rxn) rxns)"

text \<open>The edge species that occur in some core reaction: the only species for which
  \<open>isValid\<close> can hold a flux.\<close>

definition touched_edge_species :: "CoreEdgeReactionModel \<Rightarrow> species list" where
  "touched_edge_species m =
     filter (\<lambda>x. \<exists>rxn \<in> set (reactions (core m)). x \<in> species_of rxn) (species (edge m))"

definition core_flux ::
  "rate_law \<Rightarrow> CoreEdgeReactionModel \<Rightarrow> real \<Rightarrow> real \<Rightarrow> (species \<rightharpoonup> real) \<Rightarrow> species \<Rightarrow> real" where
  "core_flux getRate m T P conc spec =
     net_flux (\<lambda>rxn. getRate rxn T P conc) (reactions (core m)) spec"

text \<open>The net flux of a species from all reactions of the model, the core reactions and
  the edge reactions, and the characteristic flux with one term per entry of the list of
  core reactions.\<close>

definition core_and_edge_flux ::
  "rate_law \<Rightarrow> CoreEdgeReactionModel \<Rightarrow> real \<Rightarrow> real \<Rightarrow> (species \<rightharpoonup> real) \<Rightarrow> species \<Rightarrow> real" where
  "core_and_edge_flux getRate m T P conc spec =
     net_flux (\<lambda>rxn. getRate rxn T P conc) (reactions (core m)) spec +
     net_flux (\<lambda>rxn. getRate rxn T P conc) (reactions (edge m)) spec"

definition core_rates_charFlux ::
  "rate_law \<Rightarrow> CoreEdgeReactionModel \<Rightarrow> real \<Rightarrow> real \<Rightarrow> (species \<rightharpoonup> real) \<Rightarrow> real" where
  "core_rates_charFlux getRate m T P conc =
     fluxTolerance m *
     sqrt (sum_list (map (\<lambda>rxn. (getRate rxn T P conc) ^ 2) (reactions (core m))))"

text \<open>The entry of a species in a flux dictionary, zero when it has none.\<close>

definition entry_or_zero :: "(species \<times> real) list \<Rightarrow> species \<Rightarrow> real" where
  "entry_or_zero d x = (case map_of d x of Some f \<Rightarrow> f | None \<Rightarrow> 0)"

section \<open>Concrete species, reactions and models\<close>

text \<open>Small inputs on which the theorems below are evaluated: three species, a rate law
  that gives every reaction the rate one and one that gives the rate ten, an integrator that quarters the first mole
  number on every span, and models assembled with the two constructors.\<close>

definition spA :: species where "spA = Species 0 True"
definition spB :: species where "spB = Species 1 True"
definition spC :: species where "spC = Species 2 True"

definition unit_rate :: rate_law where
  "unit_rate rxn T P conc = 1"

definition ten_rate :: rate_law where
  "ten_rate rxn T P conc = 10"

definition no_reactions :: rate_provider where
  "no_reactions sp = []"

definition isomerisation_of_B :: rate_provider where
  "isomerisation_of_B sp = (if sp = [spB] then [Reaction 0 [spB] [spA]] else [])"

definition make_model ::
  "species list \<Rightarrow> reaction list \<Rightarrow> species list \<Rightarrow> reaction list \<Rightarrow> CoreEdgeReactionModel" where
  "make_model coreSpecies coreReactions edgeSpecies edgeReactions =
     CoreEdgeReactionModel_init
       (Some (ReactionModel_init (Some coreSpecies) (Some coreReactions)))
       (Some (ReactionModel_init (Some edgeSpecies) (Some edgeReactions)))"

definition conc_A :: "species \<rightharpoonup> real" where
  "conc_A = [spA \<mapsto> 1]"

definition quartering :: integrator where
  "quartering y t0 tf = (y[3 := y ! 3 / 4], tf)"

definition batch_reactor :: "unit ReactionSystem" where
  "batch_reactor =
     \<lparr> temperatureModel = Some (setIsothermal 1000 TemperatureModel_init),
       pressureModel = Some (setIsobaric 1 PressureModel_init),
       volumeModel = None,
       initialConcentration = conc_A \<rparr>"

section \<open>Evaluating the concrete models\<close>

lemma make_model_fields [simp]:
  "species (core (make_model cs cr es er)) = cs"
  "reactions (core (make_model cs cr es er)) = cr"
  "species (edge (make_model cs cr es er)) = es"
  "reactions (edge (make_model cs cr es er)) = er"
  "fluxTolerance (make_model cs cr es er) = 1"
  by (simp_all add: make_model_def CoreEdgeReactionModel_init_def ReactionModel_init_def)

lemma species_distinct [simp]:
  "spA \<noteq> spB" "spA \<noteq> spC" "spB \<noteq> spC" "spB \<noteq> spA" "spC \<noteq> spA" "spC \<noteq> spB"
  by (simp_all add: spA_def spB_def spC_def)

lemma species_reactive [simp]: "reactive spA" "reactive spB" "reactive spC"
  by (simp_all add: spA_def spB_def spC_def)

lemma make_model_eq:
  "make_model cs cr es er =
     \<lparr> core = \<lparr> species = cs, reactions = cr \<rparr>, edge = \<lparr> species = es, reactions = er \<rparr>,
       fluxTolerance = 1, absoluteTolerance = 1 / 10 ^ 8, relativeTolerance = 1 / 10 ^ 4 \<rparr>"
  by (simp add: make_model_def CoreEdgeReactionModel_init_def ReactionModel_init_def)

lemma fresh_model: "CoreEdgeReactionModel_init None None = make_model [] [] [] []"
  by (simp add: make_model_def CoreEdgeReactionModel_init_def ReactionModel_init_def)

lemma initialize_without_reactions:
  "initialize no_reactions [spA] (CoreEdgeReactionModel_init None None) = make_model [spA] [] [] []"
  by (simp add: fresh_model make_model_eq initialize_def initialize_species1_def
      addSpeciesToCore_def no_reactions_def Let_def)

lemma initialize_seed_A:
  "initialize isomerisation_of_B [spA] (CoreEdgeReactionModel_init None None) =
     make_model [spA] [] [] []"
  by (simp add: fresh_model make_model_eq initialize_def initialize_species1_def
      addSpeciesToCore_def isomerisation_of_B_def Let_def)


section \<open>Species lists under the mutators\<close>

lemma addReactionToCore_species [simp]:
  "species (core (addReactionToCore rxn m)) = species (core m)"
  "species (edge (addReactionToCore rxn m)) = species (edge m)"
  by (simp_all add: addReactionToCore_def Let_def)

lemma addReactionToEdge_species [simp]:
  "species (core (addReactionToEdge rxn m)) = species (core m)"
  "species (edge (addReactionToEdge rxn m)) = species (edge m)"
  by (simp_all add: addReactionToEdge_def)

lemma fold_addReactionToCore_species [simp]:
  "species (core (fold addReactionToCore rs m)) = species (core m)"
  "species (edge (fold addReactionToCore rs m)) = species (edge m)"
  by (induction rs arbitrary: m) simp_all

lemma addSpeciesToCore_core_species:
  "species (core (addSpeciesToCore spec m)) = species (core m) @ [spec]"
  by (simp add: addSpeciesToCore_def Let_def)

lemma addSpeciesToCore_edge_species:
  "species (edge (addSpeciesToCore spec m)) = remove1 spec (species (edge m))"
  by (simp add: addSpeciesToCore_def Let_def remove1_idem)

lemma enlarge_spec_core [simp]:
  "species (core (snd (enlarge_spec spec st))) = species (core (snd st))"
  by (cases st) (simp add: enlarge_spec_def Let_def addSpeciesToEdge_def)

lemma enlarge_spec_edge_length:
  "length (species (edge (snd st))) \<le> length (species (edge (snd (enlarge_spec spec st))))"
  by (cases st) (simp add: enlarge_spec_def Let_def addSpeciesToEdge_def)

lemma fold_enlarge_spec_core [simp]:
  "species (core (snd (fold enlarge_spec sps st))) = species (core (snd st))"
  by (induction sps arbitrary: st) simp_all

lemma fold_enlarge_spec_edge_length:
  "length (species (edge (snd st))) \<le> length (species (edge (snd (fold enlarge_spec sps st))))"
proof (induction sps arbitrary: st)
  case Nil
  show ?case by simp
next
  case (Cons a sps)
  have "length (species (edge (snd st))) \<le> length (species (edge (snd (enlarge_spec a st))))"
    by (rule enlarge_spec_edge_length)
  also have "\<dots> \<le> length (species (edge (snd (fold enlarge_spec sps (enlarge_spec a st)))))"
    by (rule Cons.IH)
  finally show ?case by simp
qed

lemma enlarge_rxn_core [simp]:
  "species (core (enlarge_rxn rxn m)) = species (core m)"
proof -
  obtain a m' where st: "fold enlarge_spec (products rxn) (fold enlarge_spec (reactants rxn) (True, m)) = (a, m')"
    by (cases "fold enlarge_spec (products rxn) (fold enlarge_spec (reactants rxn) (True, m))")
  have "species (core (snd (fold enlarge_spec (products rxn) (fold enlarge_spec (reactants rxn) (True, m))))) = species (core m)"
    by simp
  with st have "species (core m') = species (core m)" by simp
  with st show ?thesis by (simp add: enlarge_rxn_def)
qed

lemma enlarge_rxn_edge_length:
  "length (species (edge m)) \<le> length (species (edge (enlarge_rxn rxn m)))"
proof -
  obtain a m' where st: "fold enlarge_spec (products rxn) (fold enlarge_spec (reactants rxn) (True, m)) = (a, m')"
    by (cases "fold enlarge_spec (products rxn) (fold enlarge_spec (reactants rxn) (True, m))")
  have "length (species (edge (snd (True, m)))) \<le> length (species (edge (snd (fold enlarge_spec (reactants rxn) (True, m)))))"
    by (rule fold_enlarge_spec_edge_length)
  also have "\<dots> \<le> length (species (edge (snd (fold enlarge_spec (products rxn) (fold enlarge_spec (reactants rxn) (True, m))))))"
    by (rule fold_enlarge_spec_edge_length)
  finally have "length (species (edge m)) \<le> length (species (edge m'))" using st by simp
  with st show ?thesis by (simp add: enlarge_rxn_def)
qed

lemma fold_enlarge_rxn_core [simp]:
  "species (core (fold enlarge_rxn rs m)) = species (core m)"
  by (induction rs arbitrary: m) simp_all

lemma fold_enlarge_rxn_edge_length:
  "length (species (edge m)) \<le> length (species (edge (fold enlarge_rxn rs m)))"
proof (induction rs arbitrary: m)
  case Nil
  show ?case by simp
next
  case (Cons r rs)
  have "length (species (edge m)) \<le> length (species (edge (enlarge_rxn r m)))"
    by (rule enlarge_rxn_edge_length)
  also have "\<dots> \<le> length (species (edge (fold enlarge_rxn rs (enlarge_rxn r m))))"
    by (rule Cons.IH)
  finally show ?case by simp
qed

section \<open>enlarge and the number of species\<close>

lemma enlarge_spec_edge_set:
  "set (species (edge (snd st))) \<subseteq> set (species (edge (snd (enlarge_spec spec st))))"
  by (cases st) (auto simp add: enlarge_spec_def Let_def addSpeciesToEdge_def)

lemma fold_enlarge_spec_edge_set:
  "set (species (edge (snd st))) \<subseteq> set (species (edge (snd (fold enlarge_spec sps st))))"
proof (induction sps arbitrary: st)
  case Nil
  show ?case by simp
next
  case (Cons a sps)
  from enlarge_spec_edge_set [of st a] Cons.IH [of "enlarge_spec a st"]
  show ?case by auto
qed

lemma enlarge_rxn_edge_set:
  "set (species (edge m)) \<subseteq> set (species (edge (enlarge_rxn rxn m)))"
proof -
  obtain a m' where st: "fold enlarge_spec (products rxn) (fold enlarge_spec (reactants rxn) (True, m)) = (a, m')"
    by (cases "fold enlarge_spec (products rxn) (fold enlarge_spec (reactants rxn) (True, m))")
  from fold_enlarge_spec_edge_set [of "(True, m)" "reactants rxn"]
    fold_enlarge_spec_edge_set [of "fold enlarge_spec (reactants rxn) (True, m)" "products rxn"]
  have "set (species (edge m)) \<subseteq> set (species (edge m'))" unfolding st by auto
  with st show ?thesis by (simp add: enlarge_rxn_def)
qed

lemma fold_enlarge_rxn_edge_set:
  "set (species (edge m)) \<subseteq> set (species (edge (fold enlarge_rxn rs m)))"
proof (induction rs arbitrary: m)
  case Nil
  show ?case by simp
next
  case (Cons r rs)
  from enlarge_rxn_edge_set [of m r] Cons.IH [of "enlarge_rxn r m"]
  show ?case by auto
qed

lemma set_minus_subset_remove1: "set xs - {x} \<subseteq> set (remove1 x xs)"
  by (induction xs) auto

text \<open>The same counts taken on the sets of species, where a repeated entry counts once:
  the core never loses a species, and the sum does not decrease when no species is both
  a core and an edge species.\<close>

lemma enlarge_species_cardinality:
  "card (set (species (core m))) \<le> card (set (species (core (enlarge getReactions s m))))"
  "invariant1 m \<Longrightarrow>
   card (set (species (core m))) + card (set (species (edge m)))
     \<le> card (set (species (core (enlarge getReactions s m)))) +
        card (set (species (edge (enlarge getReactions s m))))"
proof -
  let ?m' = "enlarge getReactions s m"
  let ?rs = "getReactions [s] @
            concat (map (\<lambda>coreSpecies. if reactive coreSpecies
                                        then getReactions [s, coreSpecies] else [])
                        (species (core m)))"
  have c: "set (species (core ?m')) = insert s (set (species (core m)))"
    by (simp add: enlarge_def Let_def addSpeciesToCore_core_species)
  have "species (edge ?m') = species (edge (fold enlarge_rxn ?rs (addSpeciesToCore s m)))"
    by (simp add: enlarge_def Let_def)
  moreover have "set (species (edge (addSpeciesToCore s m)))
       \<subseteq> set (species (edge (fold enlarge_rxn ?rs (addSpeciesToCore s m))))"
    by (rule fold_enlarge_rxn_edge_set)
  ultimately have e: "set (remove1 s (species (edge m))) \<subseteq> set (species (edge ?m'))"
    by (simp only: addSpeciesToCore_edge_species)
  show "card (set (species (core m))) \<le> card (set (species (core ?m')))"
    unfolding c by (simp add: card_insert_le)
  assume i1: "invariant1 m"
  show "card (set (species (core m))) + card (set (species (edge m)))
          \<le> card (set (species (core ?m'))) + card (set (species (edge ?m')))"
  proof (cases "s \<in> set (species (edge m))")
    case False
    then have "remove1 s (species (edge m)) = species (edge m)" by (simp add: remove1_idem)
    with e have "card (set (species (edge m))) \<le> card (set (species (edge ?m')))"
      by (simp add: card_mono)
    moreover have "card (set (species (core m))) \<le> card (set (species (core ?m')))"
      unfolding c by (simp add: card_insert_le)
    ultimately show ?thesis by linarith
  next
    case True
    with i1 have "s \<notin> set (species (core m))" unfolding invariant1_def by blast
    then have cc: "card (set (species (core ?m'))) = Suc (card (set (species (core m))))"
      unfolding c by simp
    have "set (species (edge m)) - {s} \<subseteq> set (remove1 s (species (edge m)))"
      by (rule set_minus_subset_remove1)
    with e have "set (species (edge m)) - {s} \<subseteq> set (species (edge ?m'))" by blast
    then have "card (set (species (edge m)) - {s}) \<le> card (set (species (edge ?m')))"
      by (simp add: card_mono)
    moreover from True have "card (set (species (edge m)) - {s}) = card (set (species (edge m))) - 1"
      by simp
    moreover from True have "0 < card (set (species (edge m)))"
      by (auto simp add: card_gt_0_iff)
    ultimately show ?thesis using cc by linarith
  qed
qed


text \<open>Claim C7. For every model state, every rate provider and every species \<open>s\<close>,
  \<open>enlarge(s)\<close> never decreases the number of core species, and the number of core species
  plus the number of edge species never decreases across the call. The numbers are the
  lengths of the two species lists, which is what the code itself reports as the number of
  species.\<close>

theorem enlarge_species_counts:
  "length (species (core m)) \<le> length (species (core (enlarge getReactions s m))) \<and>
   length (species (core m)) + length (species (edge m))
     \<le> length (species (core (enlarge getReactions s m))) +
        length (species (edge (enlarge getReactions s m)))"
proof -
  let ?m1 = "addSpeciesToCore s m"
  let ?rs = "getReactions [s] @
            concat (map (\<lambda>coreSpecies. if reactive coreSpecies
                                        then getReactions [s, coreSpecies] else [])
                        (species (core m)))"
  have e: "enlarge getReactions s m = fold enlarge_rxn ?rs ?m1"
    by (simp add: enlarge_def Let_def)
  have c: "species (core (enlarge getReactions s m)) = species (core m) @ [s]"
    by (simp add: e addSpeciesToCore_core_species)
  have "length (species (edge m)) \<le> Suc (length (remove1 s (species (edge m))))"
    by (auto simp: length_remove1)
  also have "\<dots> = Suc (length (species (edge ?m1)))"
    by (simp add: addSpeciesToCore_edge_species)
  also have "\<dots> \<le> Suc (length (species (edge (fold enlarge_rxn ?rs ?m1))))"
    using fold_enlarge_rxn_edge_length [of ?m1 ?rs] by simp
  finally have "length (species (edge m)) \<le> Suc (length (species (edge (enlarge getReactions s m))))"
    by (simp add: e)
  with c show ?thesis by simp
qed

section \<open>Profile models\<close>

text \<open>Claim C10. For every time \<open>t\<close>, a temperature model that is not isothermal, in
  particular one whose profile was never set, returns None from \<open>getTemperature(t)\<close>, and
  a pressure model that is not isobaric returns None from \<open>getPressure(t)\<close>; after
  \<open>setIsothermal\<close>, respectively \<open>setIsobaric\<close>, the value set is returned unchanged
  for every time.\<close>

theorem profile_models_unset_and_constant:
  fixes tm :: "'v TemperatureModel" and pm :: "'w PressureModel"
  shows
  "(\<not> isIsothermal tm \<longrightarrow> getTemperature tm t = Inr None) \<and>
   getTemperature (TemperatureModel_init :: 'v TemperatureModel) t = Inr None \<and>
   getTemperature (setIsothermal temperature tm) t = Inr (Some temperature) \<and>
   (\<not> isIsobaric pm \<longrightarrow> getPressure pm t = Inr None) \<and>
   getPressure (PressureModel_init :: 'w PressureModel) t = Inr None \<and>
   getPressure (setIsobaric pressure pm) t = Inr (Some pressure)"
  by (simp add: getTemperature_def isIsothermal_def TemperatureModel_init_def setIsothermal_def
      getPressure_def isIsobaric_def PressureModel_init_def setIsobaric_def)

theorem profile_models_unset_and_constant_witness:
  "\<not> isIsothermal (TemperatureModel_init :: real TemperatureModel) \<and>
   getTemperature (TemperatureModel_init :: real TemperatureModel) 5 = Inr None \<and>
   getTemperature (setIsothermal (1000::real) TemperatureModel_init) 5 = Inr (Some 1000) \<and>
   \<not> isIsobaric (PressureModel_init :: real PressureModel) \<and>
   getPressure (PressureModel_init :: real PressureModel) 5 = Inr None \<and>
   getPressure (setIsobaric (2::real) PressureModel_init) 5 = Inr (Some 2)"
proof -
  have t: "\<not> isIsothermal (TemperatureModel_init :: real TemperatureModel)"
    by (simp add: isIsothermal_def TemperatureModel_init_def)
  have p: "\<not> isIsobaric (PressureModel_init :: real PressureModel)"
    by (simp add: isIsobaric_def PressureModel_init_def)
  from t p profile_models_unset_and_constant
    [of "TemperatureModel_init :: real TemperatureModel" 5 1000
        "PressureModel_init :: real PressureModel" 2]
  show ?thesis by blast
qed

section \<open>Constructing a reaction system\<close>

text \<open>Claim C8. Constructing a \<open>ReactionSystem\<close> or a \<open>BatchReactor\<close> raises an error if
  and only if the temperature, pressure and volume models are all three given; the error
  is then \<open>InvalidReactionSystemException\<close>. With at most two of them given the
  construction succeeds and the three fields hold exactly the arguments.\<close>

theorem ReactionSystem_three_models:
  "((\<exists>e. ReactionSystem_init tm pm vm ic = Inl e) = (tm \<noteq> None \<and> pm \<noteq> None \<and> vm \<noteq> None)) \<and>
   (\<forall>e. ReactionSystem_init tm pm vm ic = Inl e \<longrightarrow> (\<exists>label. e = InvalidReactionSystemException label)) \<and>
   (\<not> (tm \<noteq> None \<and> pm \<noteq> None \<and> vm \<noteq> None) \<longrightarrow>
      (\<exists>self. ReactionSystem_init tm pm vm ic = Inr self \<and>
         temperatureModel self = tm \<and> pressureModel self = pm \<and> volumeModel self = vm)) \<and>
   BatchReactor_init tm pm vm ic = ReactionSystem_init tm pm vm ic"
  by (simp add: ReactionSystem_init_def BatchReactor_init_def setModels_def)

theorem ReactionSystem_three_models_witness:
  "(\<exists>e. ReactionSystem_init (Some TemperatureModel_init) (Some PressureModel_init) (Some ()) None = Inl e) \<and>
   (\<exists>self. BatchReactor_init (Some (setIsothermal 1000 TemperatureModel_init)) None (Some ()) None = Inr self \<and>
      temperatureModel self = Some (setIsothermal 1000 TemperatureModel_init) \<and>
      pressureModel self = None \<and> volumeModel self = Some ())"
  using ReactionSystem_three_models
    [of "Some TemperatureModel_init" "Some PressureModel_init" "Some ()" None]
    ReactionSystem_three_models
    [of "Some (setIsothermal 1000 TemperatureModel_init)" None "Some ()" None]
  by simp

section \<open>The promotion cascade of addSpeciesToCore\<close>

lemma fold_clear_flag:
  "fold (\<lambda>x a. if x \<notin> S then False else a) xs b = (b \<and> set xs \<subseteq> S)"
  by (induction xs arbitrary: b) auto

lemma allCore_iff: "allCore coreSpecies rxn = (species_of rxn \<subseteq> set coreSpecies)"
  by (auto simp add: allCore_def species_of_def fold_clear_flag)

lemma addReactionToCore_reactions:
  "reactions (core (addReactionToCore rxn m)) = reactions (core m) @ [rxn]"
  "reactions (edge (addReactionToCore rxn m)) = remove1 rxn (reactions (edge m))"
  by (simp_all add: addReactionToCore_def Let_def remove1_idem)

lemma fold_addReactionToCore_reactions:
  "reactions (core (fold addReactionToCore rs m)) = reactions (core m) @ rs"
  "reactions (edge (fold addReactionToCore rs m)) = fold remove1 rs (reactions (edge m))"
  by (induction rs arbitrary: m) (simp_all add: addReactionToCore_reactions)

lemma fold_remove1_filter_prefix:
  "\<forall>y \<in> set ys. \<not> Q y \<Longrightarrow> fold remove1 (filter Q xs) (ys @ xs) = ys @ filter (\<lambda>x. \<not> Q x) xs"
proof (induction xs arbitrary: ys)
  case Nil
  show ?case by simp
next
  case (Cons x xs)
  show ?case
  proof (cases "Q x")
    case True
    with Cons.prems have "x \<notin> set ys" by blast
    then have "remove1 x (ys @ x # xs) = ys @ xs" by (simp add: remove1_append)
    with True Cons.IH [OF Cons.prems] show ?thesis by simp
  next
    case False
    with Cons.prems have "\<forall>y \<in> set (ys @ [x]). \<not> Q y" by simp
    from Cons.IH [OF this] False show ?thesis by simp
  qed
qed

lemma fold_remove1_filter:
  "fold remove1 (filter Q xs) xs = filter (\<lambda>x. \<not> Q x) xs"
  using fold_remove1_filter_prefix [of "[]" Q xs] by simp

text \<open>What \<open>addSpeciesToCore\<close> leaves in the four lists.\<close>

lemma addSpeciesToCore_reactions_edge_species:
  assumes "spec \<in> set (species (edge m))"
  shows "reactions (edge (addSpeciesToCore spec m)) =
           filter (\<lambda>rxn. \<not> species_of rxn \<subseteq> set (species (core m) @ [spec])) (reactions (edge m))"
    and "reactions (core (addSpeciesToCore spec m)) =
           reactions (core m) @
           filter (\<lambda>rxn. species_of rxn \<subseteq> set (species (core m) @ [spec])) (reactions (edge m))"
  using assms
  by (simp_all add: addSpeciesToCore_def Let_def fold_addReactionToCore_reactions
      fold_remove1_filter allCore_iff [abs_def])

lemma addSpeciesToCore_reactions_other:
  assumes "spec \<notin> set (species (edge m))"
  shows "reactions (edge (addSpeciesToCore spec m)) = reactions (edge m)"
    and "reactions (core (addSpeciesToCore spec m)) = reactions (core m)"
  using assms by (simp_all add: addSpeciesToCore_def Let_def)

text \<open>Under the invariants, a species that is not an edge species completes no edge
  reaction: the scan that \<open>addSpeciesToCore\<close> skips in that case would find nothing.\<close>

lemma invariants_edge_reaction:
  assumes "invariants m" and "rxn \<in> set (reactions (edge m))"
  shows "species_of rxn \<subseteq> set (species (core m)) \<union> set (species (edge m))"
    and "\<not> species_of rxn \<subseteq> set (species (core m))"
proof -
  from assms(1) have i2: "invariant2 m" and i3: "invariant3 m" and i4: "invariant4 m"
    unfolding invariants_def by blast+
  from assms(2) have mem: "rxn \<in> set (reactions (core m)) \<union> set (reactions (edge m))"
    by blast
  from i4 mem show "species_of rxn \<subseteq> set (species (core m)) \<union> set (species (edge m))"
    unfolding invariant4_def by blast
  from i2 assms(2) have "rxn \<notin> set (reactions (core m))"
    unfolding invariant2_def by blast
  moreover from i3 mem
  have "(rxn \<in> set (reactions (core m))) = (species_of rxn \<subseteq> set (species (core m)))"
    unfolding invariant3_def by blast
  ultimately show "\<not> species_of rxn \<subseteq> set (species (core m))" by blast
qed

lemma no_edge_reaction_completed:
  assumes inv: "invariants m" and s: "spec \<notin> set (species (edge m))"
    and r: "rxn \<in> set (reactions (edge m))"
  shows "\<not> species_of rxn \<subseteq> set (species (core m) @ [spec])"
proof
  assume sub: "species_of rxn \<subseteq> set (species (core m) @ [spec])"
  from inv r have known: "species_of rxn \<subseteq> set (species (core m)) \<union> set (species (edge m))"
    by (rule invariants_edge_reaction)
  have "species_of rxn \<subseteq> set (species (core m))"
  proof
    fix x assume x: "x \<in> species_of rxn"
    show "x \<in> set (species (core m))"
    proof (cases "x = spec")
      case True
      with x known s show ?thesis by blast
    next
      case False
      from x sub have "x \<in> set (species (core m) @ [spec])" by blast
      with False show ?thesis by simp
    qed
  qed
  moreover from inv r have "\<not> species_of rxn \<subseteq> set (species (core m))"
    by (rule invariants_edge_reaction)
  ultimately show False by blast
qed

text \<open>Claim C6. For every model state that satisfies invariants (1) to (4) and every
  species \<open>s\<close>, after \<open>addSpeciesToCore(s)\<close>: every edge reaction whose reactants and products
  are all core species has been moved, so it is a core reaction and no longer an edge
  reaction, and no such reaction is left among the edge reactions; the edge reactions
  left and the core reactions gained are those of one pass over the edge reactions; and
  \<open>s\<close> has been removed from the edge species: the list loses its first occurrence of
  \<open>s\<close>, so \<open>s\<close> is gone from an edge list without duplicate entries.\<close>

theorem addSpeciesToCore_cascade:
  assumes "invariants m"
  shows "(\<forall>rxn \<in> set (reactions (edge m)).
            species_of rxn \<subseteq> set (species (core (addSpeciesToCore s m))) \<longrightarrow>
              rxn \<in> set (reactions (core (addSpeciesToCore s m))) \<and>
              rxn \<notin> set (reactions (edge (addSpeciesToCore s m)))) \<and>
         (\<forall>rxn \<in> set (reactions (edge (addSpeciesToCore s m))).
            \<not> species_of rxn \<subseteq> set (species (core (addSpeciesToCore s m)))) \<and>
         reactions (edge (addSpeciesToCore s m)) =
           filter (\<lambda>rxn. \<not> species_of rxn \<subseteq> set (species (core (addSpeciesToCore s m))))
                  (reactions (edge m)) \<and>
         reactions (core (addSpeciesToCore s m)) =
           reactions (core m) @
           filter (\<lambda>rxn. species_of rxn \<subseteq> set (species (core (addSpeciesToCore s m))))
                  (reactions (edge m)) \<and>
         species (core (addSpeciesToCore s m)) = species (core m) @ [s] \<and>
         species (edge (addSpeciesToCore s m)) = remove1 s (species (edge m)) \<and>
         (distinct (species (edge m)) \<longrightarrow> s \<notin> set (species (edge (addSpeciesToCore s m))))"
proof -
  let ?m' = "addSpeciesToCore s m"
  let ?P = "\<lambda>rxn. species_of rxn \<subseteq> set (species (core m) @ [s])"
  have cs: "species (core ?m') = species (core m) @ [s]"
    by (rule addSpeciesToCore_core_species)
  have es: "species (edge ?m') = remove1 s (species (edge m))"
    by (rule addSpeciesToCore_edge_species)
  have re: "reactions (edge ?m') = filter (\<lambda>rxn. \<not> ?P rxn) (reactions (edge m))"
   and rc: "reactions (core ?m') = reactions (core m) @ filter ?P (reactions (edge m))"
  proof -
    show "reactions (edge ?m') = filter (\<lambda>rxn. \<not> ?P rxn) (reactions (edge m))"
    proof (cases "s \<in> set (species (edge m))")
      case True
      then show ?thesis by (rule addSpeciesToCore_reactions_edge_species)
    next
      case False
      with assms have "\<forall>rxn \<in> set (reactions (edge m)). \<not> ?P rxn"
        using no_edge_reaction_completed by blast
      then have "filter (\<lambda>rxn. \<not> ?P rxn) (reactions (edge m)) = reactions (edge m)"
        by (simp add: filter_id_conv)
      with False show ?thesis by (simp add: addSpeciesToCore_reactions_other)
    qed
    show "reactions (core ?m') = reactions (core m) @ filter ?P (reactions (edge m))"
    proof (cases "s \<in> set (species (edge m))")
      case True
      then show ?thesis by (rule addSpeciesToCore_reactions_edge_species)
    next
      case False
      with assms have "\<forall>rxn \<in> set (reactions (edge m)). \<not> ?P rxn"
        using no_edge_reaction_completed by blast
      then have "filter ?P (reactions (edge m)) = []"
        by (simp add: filter_empty_conv)
      with False show ?thesis by (simp add: addSpeciesToCore_reactions_other)
    qed
  qed
  have d: "distinct (species (edge m)) \<longrightarrow> s \<notin> set (species (edge ?m'))"
    by (simp add: es)
  have c1: "\<forall>rxn \<in> set (reactions (edge m)).
            species_of rxn \<subseteq> set (species (core ?m')) \<longrightarrow>
              rxn \<in> set (reactions (core ?m')) \<and> rxn \<notin> set (reactions (edge ?m'))"
    by (simp add: cs re rc)
  have c2: "\<forall>rxn \<in> set (reactions (edge ?m')). \<not> species_of rxn \<subseteq> set (species (core ?m'))"
    by (simp add: cs re)
  have c3: "reactions (edge ?m') =
           filter (\<lambda>rxn. \<not> species_of rxn \<subseteq> set (species (core ?m'))) (reactions (edge m))"
    by (simp only: cs re)
  have c4: "reactions (core ?m') =
           reactions (core m) @
           filter (\<lambda>rxn. species_of rxn \<subseteq> set (species (core ?m'))) (reactions (edge m))"
    by (simp only: cs rc)
  show ?thesis
    by (intro conjI) (rule c1, rule c2, rule c3, rule c4, rule cs, rule es, rule d)
qed
theorem addSpeciesToCore_cascade_witness:
  "invariants (make_model [spA] [] [spB, spC] [Reaction 0 [spA] [spB], Reaction 1 [spA] [spC]]) \<and>
   reactions (core (addSpeciesToCore spB
      (make_model [spA] [] [spB, spC] [Reaction 0 [spA] [spB], Reaction 1 [spA] [spC]])))
     = [Reaction 0 [spA] [spB]] \<and>
   reactions (edge (addSpeciesToCore spB
      (make_model [spA] [] [spB, spC] [Reaction 0 [spA] [spB], Reaction 1 [spA] [spC]])))
     = [Reaction 1 [spA] [spC]] \<and>
   species (core (addSpeciesToCore spB
      (make_model [spA] [] [spB, spC] [Reaction 0 [spA] [spB], Reaction 1 [spA] [spC]])))
     = [spA, spB] \<and>
   species (edge (addSpeciesToCore spB
      (make_model [spA] [] [spB, spC] [Reaction 0 [spA] [spB], Reaction 1 [spA] [spC]])))
     = [spC]"
proof -
  let ?m = "make_model [spA] [] [spB, spC] [Reaction 0 [spA] [spB], Reaction 1 [spA] [spC]]"
  have h: "invariants ?m"
    by (simp add: invariants_def invariant1_def invariant2_def invariant3_def invariant4_def
        species_of_def)
  from addSpeciesToCore_cascade [OF h, of spB]
  have "reactions (core (addSpeciesToCore spB ?m)) = [Reaction 0 [spA] [spB]] \<and>
        reactions (edge (addSpeciesToCore spB ?m)) = [Reaction 1 [spA] [spC]] \<and>
        species (core (addSpeciesToCore spB ?m)) = [spA, spB] \<and>
        species (edge (addSpeciesToCore spB ?m)) = [spC]"
    by (simp add: species_of_def)
  with h show ?thesis by blast
qed


section \<open>The maximum taken by the validity checks\<close>

lemma fold_keep_greater_mem:
  "fold (\<lambda>item m. if gt item m then item else m) xs x \<in> set (x # xs)"
proof (induction xs arbitrary: x)
  case Nil
  show ?case by simp
next
  case (Cons a xs)
  from Cons.IH [of "if gt a x then a else x"] show ?case by auto
qed

lemma fold_keep_greater_fst:
  "\<forall>q \<in> set (x # xs).
     fst q \<le> fst (fold (\<lambda>item m. if tuple_gt gt2 item m then item else m) xs x)"
proof (induction xs arbitrary: x)
  case Nil
  show ?case by simp
next
  case (Cons a xs)
  let ?x' = "if tuple_gt gt2 a x then a else x"
  let ?r = "fold (\<lambda>item m. if tuple_gt gt2 item m then item else m) xs ?x'"
  from Cons.IH [of ?x'] have ih: "\<forall>q \<in> set (?x' # xs). fst q \<le> fst ?r" .
  then have top: "fst ?x' \<le> fst ?r" by simp
  have "fst x \<le> fst ?x'" and "fst a \<le> fst ?x'"
    by (auto simp add: tuple_gt_def)
  with top have "fst x \<le> fst ?r" and "fst a \<le> fst ?r" by linarith+
  with ih show ?case by simp
qed

lemma py_max_tuple:
  assumes "xs \<noteq> []"
  shows "\<exists>p. py_max (tuple_gt gt2) xs = Inr p \<and> p \<in> set xs \<and> (\<forall>q \<in> set xs. fst q \<le> fst p)"
proof -
  from assms obtain x rest where xs: "xs = x # rest" by (cases xs) auto
  show ?thesis
    unfolding xs py_max.simps
    using fold_keep_greater_mem [of "tuple_gt gt2" rest x] fold_keep_greater_fst [of x rest gt2]
    by blast
qed

section \<open>isValid never fails on a dictionary lookup\<close>

lemma map_of_fold_update:
  "map_of (fold (\<lambda>k d. AList.update k (g k) d) ks d0) k =
     (if k \<in> set ks then Some (g k) else map_of d0 k)"
  by (induction ks arbitrary: d0) (simp_all add: update_conv')

lemma map_of_rxnFlux_of:
  "rxn \<in> set rxns \<Longrightarrow> map_of (rxnFlux_of getRate rxns T P conc) rxn = Some (getRate rxn T P conc)"
  by (simp add: rxnFlux_of_def map_of_fold_update)

lemma flux_reactants_total:
  "map_of rxnFlux rxn = Some r \<Longrightarrow> \<exists>d. flux_reactants edgeSpecies rxnFlux rxn xs specFlux = Inr d"
  by (induction xs arbitrary: specFlux) simp_all

lemma flux_products_total:
  "map_of rxnFlux rxn = Some r \<Longrightarrow> \<exists>d. flux_products edgeSpecies rxnFlux rxn xs specFlux = Inr d"
  by (induction xs arbitrary: specFlux) simp_all

lemma specFlux_of_total:
  "\<forall>rxn \<in> set rxns. map_of rxnFlux rxn \<noteq> None \<Longrightarrow>
   \<exists>d. specFlux_of edgeSpecies rxnFlux rxns specFlux = Inr d"
proof (induction rxns arbitrary: specFlux)
  case Nil
  show ?case by simp
next
  case (Cons rxn rest)
  from Cons.prems obtain r where r: "map_of rxnFlux rxn = Some r" by auto
  from flux_reactants_total [OF r]
  obtain d1 where d1: "flux_reactants edgeSpecies rxnFlux rxn (reactants rxn) specFlux = Inr d1"
    by blast
  from flux_products_total [OF r]
  obtain d2 where d2: "flux_products edgeSpecies rxnFlux rxn (products rxn) d1 = Inr d2"
    by blast
  from Cons.prems have "\<forall>rxn \<in> set rest. map_of rxnFlux rxn \<noteq> None" by simp
  from Cons.IH [OF this, of d2] d1 d2 show ?case by simp
qed

lemma isValid_specFlux_total:
  "\<exists>specFlux. specFlux_of (species (edge m))
                 (rxnFlux_of getRate (reactions (core m)) T P conc) (reactions (core m)) [] =
               Inr specFlux"
  by (rule specFlux_of_total) (simp add: map_of_rxnFlux_of)

lemma charFlux_of_nonneg: "0 \<le> fluxTolerance m \<Longrightarrow> 0 \<le> charFlux_of getRate m T P conc"
  unfolding charFlux_of_def
  by (intro mult_nonneg_nonneg real_sqrt_ge_zero sum_list_nonneg) auto

lemma isValid_verdict:
  assumes sf: "specFlux_of (species (edge m))
                 (rxnFlux_of getRate (reactions (core m)) T P conc) (reactions (core m)) [] =
               Inr specFlux"
    and ne: "specFlux \<noteq> []"
  shows "isValid getRate m T P conc =
           Inr (\<forall>f \<in> snd ` set specFlux. f \<le> charFlux_of getRate m T P conc)"
proof -
  let ?ts = "map (\<lambda>(x, f). (f, x)) specFlux"
  from ne have "?ts \<noteq> []" by simp
  from py_max_tuple [OF this, of species_gt]
  obtain p where p: "py_max (tuple_gt species_gt) ?ts = Inr p"
    and mem: "p \<in> set ?ts" and top: "\<forall>q \<in> set ?ts. fst q \<le> fst p"
    by blast
  from mem have "fst p \<in> snd ` set specFlux" by force
  moreover from top have "\<forall>f \<in> snd ` set specFlux. f \<le> fst p" by force
  ultimately have
    "(\<forall>f \<in> snd ` set specFlux. f \<le> charFlux_of getRate m T P conc) =
     (\<not> fst p > charFlux_of getRate m T P conc)"
    by (meson not_less order_trans)
  with sf p show ?thesis
    by (simp add: isValid_def Let_def split: prod.splits)
qed

section \<open>The species fluxes of isValid\<close>

lemma flux_reactants_map_of:
  assumes "map_of rxnFlux rxn = Some r"
    and "flux_reactants edgeSpecies rxnFlux rxn xs d = Inr d'"
  shows "map_of d' x =
           (if x \<in> set xs \<and> x \<in> set edgeSpecies
            then Some (entry_or_zero d x - real (count_list xs x) * r)
            else map_of d x)"
  using assms(2)
proof (induction xs arbitrary: d)
  case Nil
  then show ?case by simp
next
  case (Cons a rest)
  show ?case
  proof (cases "a \<in> set edgeSpecies")
    case False
    with Cons.prems have "flux_reactants edgeSpecies rxnFlux rxn rest d = Inr d'" by simp
    from Cons.IH [OF this] False show ?thesis by auto
  next
    case True
    let ?d1 = "AList.update a (entry_or_zero d a - r) d"
    from True Cons.prems assms(1)
    have "flux_reactants edgeSpecies rxnFlux rxn rest ?d1 = Inr d'"
      by (simp add: entry_or_zero_def split: option.splits)
    from Cons.IH [OF this]
    have ih: "map_of d' x =
           (if x \<in> set rest \<and> x \<in> set edgeSpecies
            then Some (entry_or_zero ?d1 x - real (count_list rest x) * r)
            else map_of ?d1 x)" .
    have e: "entry_or_zero ?d1 x = (if x = a then entry_or_zero d a - r else entry_or_zero d x)"
      by (simp add: entry_or_zero_def update_conv')
    have m: "map_of ?d1 x = (if x = a then Some (entry_or_zero d a - r) else map_of d x)"
      by (simp add: update_conv')
    from True show ?thesis
      unfolding ih e m by (auto simp add: algebra_simps)
  qed
qed

lemma flux_products_map_of:
  assumes "map_of rxnFlux rxn = Some r"
    and "flux_products edgeSpecies rxnFlux rxn xs d = Inr d'"
  shows "map_of d' x =
           (if x \<in> set xs \<and> x \<in> set edgeSpecies
            then Some (entry_or_zero d x + real (count_list xs x) * r)
            else map_of d x)"
  using assms(2)
proof (induction xs arbitrary: d)
  case Nil
  then show ?case by simp
next
  case (Cons a rest)
  show ?case
  proof (cases "a \<in> set edgeSpecies")
    case False
    with Cons.prems have "flux_products edgeSpecies rxnFlux rxn rest d = Inr d'" by simp
    from Cons.IH [OF this] False show ?thesis by auto
  next
    case True
    let ?d1 = "AList.update a (entry_or_zero d a + r) d"
    from True Cons.prems assms(1)
    have "flux_products edgeSpecies rxnFlux rxn rest ?d1 = Inr d'"
      by (simp add: entry_or_zero_def split: option.splits)
    from Cons.IH [OF this]
    have ih: "map_of d' x =
           (if x \<in> set rest \<and> x \<in> set edgeSpecies
            then Some (entry_or_zero ?d1 x + real (count_list rest x) * r)
            else map_of ?d1 x)" .
    have e: "entry_or_zero ?d1 x = (if x = a then entry_or_zero d a + r else entry_or_zero d x)"
      by (simp add: entry_or_zero_def update_conv')
    have m: "map_of ?d1 x = (if x = a then Some (entry_or_zero d a + r) else map_of d x)"
      by (simp add: update_conv')
    from True show ?thesis
      unfolding ih e m by (auto simp add: algebra_simps)
  qed
qed

lemma flux_reactants_distinct:
  "flux_reactants edgeSpecies rxnFlux rxn xs d = Inr d' \<Longrightarrow> distinct (map fst d) \<Longrightarrow>
   distinct (map fst d')"
  by (induction xs arbitrary: d) (auto simp add: distinct_update split: if_splits option.splits)

lemma flux_products_distinct:
  "flux_products edgeSpecies rxnFlux rxn xs d = Inr d' \<Longrightarrow> distinct (map fst d) \<Longrightarrow>
   distinct (map fst d')"
  by (induction xs arbitrary: d) (auto simp add: distinct_update split: if_splits option.splits)


lemma coefficient_absent:
  "x \<notin> species_of rxn \<Longrightarrow> getStoichiometricCoefficient rxn x = 0"
  by (simp add: species_of_def getStoichiometricCoefficient_def count_list_0_iff)

lemma net_flux_untouched:
  "\<forall>rxn \<in> set rxns. x \<notin> species_of rxn \<Longrightarrow> net_flux rate rxns x = 0"
  by (induction rxns) (simp_all add: net_flux_def coefficient_absent)

lemma net_flux_Cons:
  "net_flux rate (rxn # rxns) x =
     real_of_int (getStoichiometricCoefficient rxn x) * rate rxn + net_flux rate rxns x"
  by (simp add: net_flux_def)

lemma flux_one_reaction_map_of:
  assumes r: "map_of rxnFlux rxn = Some r"
    and d1: "flux_reactants edgeSpecies rxnFlux rxn (reactants rxn) d = Inr d1"
    and d2: "flux_products edgeSpecies rxnFlux rxn (products rxn) d1 = Inr d2"
  shows "map_of d2 x =
           (if x \<in> species_of rxn \<and> x \<in> set edgeSpecies
            then Some (entry_or_zero d x + real_of_int (getStoichiometricCoefficient rxn x) * r)
            else map_of d x)"
proof -
  note a = flux_reactants_map_of [OF r d1, of x]
  note b = flux_products_map_of [OF r d2, of x]
  have e1: "entry_or_zero d1 x =
              (if x \<in> set (reactants rxn) \<and> x \<in> set edgeSpecies
               then entry_or_zero d x - real (count_list (reactants rxn) x) * r
               else entry_or_zero d x)"
    unfolding entry_or_zero_def [of d1] a by (simp add: entry_or_zero_def)
  have c0: "x \<notin> set xs \<Longrightarrow> real (count_list xs x) = 0" for xs
    by (simp add: count_list_0_iff)
  show ?thesis
    unfolding b e1 a
    by (auto simp add: species_of_def getStoichiometricCoefficient_def c0 algebra_simps)
qed

lemma flux_one_reaction_entry:
  assumes r: "map_of rxnFlux rxn = Some r"
    and d1: "flux_reactants edgeSpecies rxnFlux rxn (reactants rxn) d = Inr d1"
    and d2: "flux_products edgeSpecies rxnFlux rxn (products rxn) d1 = Inr d2"
    and x: "x \<in> set edgeSpecies"
  shows "entry_or_zero d2 x =
           entry_or_zero d x + real_of_int (getStoichiometricCoefficient rxn x) * r"
  unfolding entry_or_zero_def [of d2] flux_one_reaction_map_of [OF r d1 d2]
  using x by (simp add: entry_or_zero_def coefficient_absent)

lemma specFlux_of_map_of:
  assumes "\<forall>rxn \<in> set rxns. map_of rxnFlux rxn = Some (rate rxn)"
    and "specFlux_of edgeSpecies rxnFlux rxns d = Inr d'"
  shows "map_of d' x =
           (if x \<in> set edgeSpecies \<and> (\<exists>rxn \<in> set rxns. x \<in> species_of rxn)
            then Some (entry_or_zero d x + net_flux rate rxns x)
            else map_of d x)"
  using assms
proof (induction rxns arbitrary: d)
  case Nil
  then show ?case by simp
next
  case (Cons rxn rest)
  from Cons.prems(1) have r: "map_of rxnFlux rxn = Some (rate rxn)"
    and rs: "\<forall>rxn \<in> set rest. map_of rxnFlux rxn = Some (rate rxn)" by simp_all
  from Cons.prems(2) obtain d1 d2
    where d1: "flux_reactants edgeSpecies rxnFlux rxn (reactants rxn) d = Inr d1"
      and d2: "flux_products edgeSpecies rxnFlux rxn (products rxn) d1 = Inr d2"
      and d': "specFlux_of edgeSpecies rxnFlux rest d2 = Inr d'"
    by (auto split: sum.splits)
  note ih = Cons.IH [OF rs d']
  note one = flux_one_reaction_map_of [OF r d1 d2, of x]
  show ?case
  proof (cases "x \<in> set edgeSpecies")
    case False
    with ih one show ?thesis by simp
  next
    case True
    note ent = flux_one_reaction_entry [OF r d1 d2 True]
    from True show ?thesis
      unfolding ih one ent
      by (auto simp add: net_flux_Cons net_flux_untouched coefficient_absent entry_or_zero_def
          split: option.splits)
  qed
qed

lemma specFlux_of_distinct:
  "specFlux_of edgeSpecies rxnFlux rxns d = Inr d' \<Longrightarrow> distinct (map fst d) \<Longrightarrow>
   distinct (map fst d')"
proof (induction rxns arbitrary: d)
  case Nil
  then show ?case by simp
next
  case (Cons rxn rest)
  from Cons.prems(1) obtain d1 d2
    where d1: "flux_reactants edgeSpecies rxnFlux rxn (reactants rxn) d = Inr d1"
      and d2: "flux_products edgeSpecies rxnFlux rxn (products rxn) d1 = Inr d2"
      and d': "specFlux_of edgeSpecies rxnFlux rest d2 = Inr d'"
    by (auto split: sum.splits)
  from flux_reactants_distinct [OF d1 Cons.prems(2)] have "distinct (map fst d1)" .
  from flux_products_distinct [OF d2 this] have "distinct (map fst d2)" .
  from Cons.IH [OF d' this] show ?case .
qed

text \<open>The dictionary \<open>specFlux\<close> of \<open>isValid\<close>: its keys are the edge species that occur in
  some core reaction, and the entry of such a species is its net flux from the core
  reactions.\<close>

lemma isValid_specFlux_entries:
  assumes "specFlux_of (species (edge m))
                 (rxnFlux_of getRate (reactions (core m)) T P conc) (reactions (core m)) [] =
               Inr specFlux"
  shows "set specFlux =
           {(x, net_flux (\<lambda>rxn. getRate rxn T P conc) (reactions (core m)) x) | x.
              x \<in> set (species (edge m)) \<and> (\<exists>rxn \<in> set (reactions (core m)). x \<in> species_of rxn)}"
proof -
  have keys: "\<forall>rxn \<in> set (reactions (core m)).
      map_of (rxnFlux_of getRate (reactions (core m)) T P conc) rxn = Some (getRate rxn T P conc)"
    by (simp add: map_of_rxnFlux_of)
  note mo = specFlux_of_map_of [OF keys assms]
  from specFlux_of_distinct [OF assms] have dist: "distinct (map fst specFlux)" by simp
  show ?thesis
  proof (intro set_eqI iffI)
    fix p assume "p \<in> set specFlux"
    then have "map_of specFlux (fst p) = Some (snd p)" using dist by simp
    then show "p \<in> {(x, net_flux (\<lambda>rxn. getRate rxn T P conc) (reactions (core m)) x) | x.
              x \<in> set (species (edge m)) \<and> (\<exists>rxn \<in> set (reactions (core m)). x \<in> species_of rxn)}"
      unfolding mo [of "fst p"]
      by (cases p) (auto simp add: entry_or_zero_def split: if_splits)
  next
    fix p assume "p \<in> {(x, net_flux (\<lambda>rxn. getRate rxn T P conc) (reactions (core m)) x) | x.
              x \<in> set (species (edge m)) \<and> (\<exists>rxn \<in> set (reactions (core m)). x \<in> species_of rxn)}"
    then have "map_of specFlux (fst p) = Some (snd p)"
      unfolding mo [of "fst p"] by (auto simp add: entry_or_zero_def)
    then show "p \<in> set specFlux" using dist by simp
  qed
qed

lemma rxnFlux_of_distinct: "distinct (map fst (rxnFlux_of getRate rxns T P conc))"
proof -
  have "distinct (map fst d0) \<Longrightarrow>
        distinct (map fst (fold (\<lambda>rxn d. AList.update rxn (getRate rxn T P conc) d) rxns d0))" for d0
    by (induction rxns arbitrary: d0) (simp_all add: distinct_update)
  from this [of "[]"] show ?thesis by (simp add: rxnFlux_of_def)
qed

text \<open>The characteristic flux of \<open>isValid\<close> has one term per distinct core reaction, since
  the rates are collected in a dictionary.\<close>

lemma charFlux_of_sum:
  "charFlux_of getRate m T P conc =
     fluxTolerance m * sqrt (\<Sum>rxn \<in> set (reactions (core m)). (getRate rxn T P conc) ^ 2)"
proof -
  let ?d = "rxnFlux_of getRate (reactions (core m)) T P conc"
  let ?g = "\<lambda>rxn. getRate rxn T P conc"
  have mo: "map_of ?d k = (if k \<in> set (reactions (core m)) then Some (?g k) else None)" for k
    by (simp add: rxnFlux_of_def map_of_fold_update)
  have dist: "distinct (map fst ?d)" by (rule rxnFlux_of_distinct)
  have "snd p = ?g (fst p)" if "p \<in> set ?d" for p
  proof -
    from that dist have "map_of ?d (fst p) = Some (snd p)" by simp
    then show ?thesis unfolding mo by (simp split: if_splits)
  qed
  then have vals: "map snd ?d = map ?g (map fst ?d)" by simp
  have "set (map fst ?d) = dom (map_of ?d)" by (simp add: dom_map_of_conv_image_fst)
  also have "\<dots> = set (reactions (core m))" unfolding dom_def mo by simp
  finally have keys: "set (map fst ?d) = set (reactions (core m))" .
  have "sum_list (map (\<lambda>flux. flux ^ 2) (map snd ?d)) =
        sum_list (map (\<lambda>rxn. (?g rxn) ^ 2) (map fst ?d))"
    unfolding vals by (simp add: comp_def)
  also have "\<dots> = (\<Sum>rxn \<in> set (map fst ?d). (?g rxn) ^ 2)"
    using dist by (rule sum_list_distinct_conv_sum_set)
  finally show ?thesis unfolding charFlux_of_def keys by simp
qed

text \<open>What \<open>isValid\<close> computes: ValueError when no edge species occurs in a core reaction;
  otherwise whether every such species has a net flux from the core reactions that does
  not exceed the characteristic flux.\<close>

lemma isValid_core_flux:
  "isValid getRate m T P conc =
     (if touched_edge_species m = [] then Inl ValueError
      else Inr (\<forall>x \<in> set (touched_edge_species m).
                  core_flux getRate m T P conc x \<le> charFlux_of getRate m T P conc))"
proof -
  from isValid_specFlux_total [of m getRate T P conc]
  obtain specFlux where sf: "specFlux_of (species (edge m))
                 (rxnFlux_of getRate (reactions (core m)) T P conc) (reactions (core m)) [] =
               Inr specFlux" by blast
  note ent = isValid_specFlux_entries [OF sf]
  have img: "snd ` set specFlux = core_flux getRate m T P conc ` set (touched_edge_species m)"
    unfolding ent touched_edge_species_def core_flux_def [abs_def] by force
  show ?thesis
  proof (cases "specFlux = []")
    case True
    with img have "touched_edge_species m = []" by simp
    with True sf show ?thesis by (simp add: isValid_def Let_def)
  next
    case False
    with img have "touched_edge_species m \<noteq> []" by force
    with isValid_verdict [OF sf False] show ?thesis unfolding img by simp
  qed
qed

text \<open>On a state that satisfies the invariants no core reaction mentions an edge species,
  so \<open>isValid\<close> finds no flux at all.\<close>

lemma touched_edge_species_invariants: "invariants m \<Longrightarrow> touched_edge_species m = []"
proof -
  assume inv: "invariants m"
  then have i1: "invariant1 m" and i3: "invariant3 m" unfolding invariants_def by blast+
  have "\<not> (\<exists>rxn \<in> set (reactions (core m)). x \<in> species_of rxn)"
    if x: "x \<in> set (species (edge m))" for x
  proof
    assume "\<exists>rxn \<in> set (reactions (core m)). x \<in> species_of rxn"
    then obtain rxn where r: "rxn \<in> set (reactions (core m))" and xr: "x \<in> species_of rxn" by blast
    from r have "rxn \<in> set (reactions (core m)) \<union> set (reactions (edge m))" by blast
    with i3 r have "species_of rxn \<subseteq> set (species (core m))"
      unfolding invariant3_def by blast
    with xr have "x \<in> set (species (core m))" by blast
    with x i1 show False unfolding invariant1_def by blast
  qed
  then show ?thesis by (simp add: touched_edge_species_def filter_empty_conv)
qed

text \<open>Without repeated core reactions the dictionary and the list give the same
  characteristic flux.\<close>

lemma charFlux_of_distinct:
  "distinct (reactions (core m)) \<Longrightarrow>
   charFlux_of getRate m T P conc = core_rates_charFlux getRate m T P conc"
  unfolding charFlux_of_sum core_rates_charFlux_def
  by (simp add: sum_list_distinct_conv_sum_set)

text \<open>So on every state that satisfies the invariants \<open>isValid\<close> raises ValueError.\<close>

lemma isValid_fails_under_invariants:
  "invariants m \<Longrightarrow> isValid getRate m T P conc = Inl ValueError"
  by (simp add: isValid_core_flux touched_edge_species_invariants)

section \<open>The validity check of simulate\<close>

lemma map2_times_map:
  "map2 (*) (map f xs) (map g xs) = map (\<lambda>x. f x * (g x :: real)) xs"
  by (induction xs) simp_all

lemma numpy_dot_stoichiometry_of:
  "numpy_dot (stoichiometry_of m)
     (map rate (reactions (core m) @ reactions (edge m))) =
   Inr (map (\<lambda>spec. net_flux rate (reactions (core m)) spec + net_flux rate (reactions (edge m)) spec)
            (species (core m) @ species (edge m)))"
proof -
  let ?rxns = "reactions (core m) @ reactions (edge m)"
  have rows: "list_all (\<lambda>row. length row = length (map rate ?rxns)) (stoichiometry_of m)"
    by (auto simp add: stoichiometry_of_def getLists_def list_all_iff)
  have "sum_list (map2 (*) (map (\<lambda>rxn. real_of_int (getStoichiometricCoefficient rxn spec)) ?rxns)
                          (map rate ?rxns)) =
        net_flux rate (reactions (core m)) spec + net_flux rate (reactions (edge m)) spec" for spec
    unfolding map2_times_map by (simp add: net_flux_def)
  then have "map (\<lambda>row. sum_list (map2 (*) row (map rate ?rxns))) (stoichiometry_of m) =
        map (\<lambda>spec. net_flux rate (reactions (core m)) spec + net_flux rate (reactions (edge m)) spec)
            (species (core m) @ species (edge m))"
    by (simp add: stoichiometry_of_def getLists_def)
  with rows show ?thesis
    unfolding numpy_dot_def by simp
qed

lemma isModelValid_verdict:
  assumes rr: "getReactionRates getRate P V T Ni m = Inr rxnRates"
    and dn: "numpy_dot stoichiometry rxnRates = Inr dNidt"
    and ne: "length (species (core m)) < length dNidt"
  shows "\<exists>i. length (species (core m)) \<le> i \<and> i < length dNidt \<and>
           (\<forall>j. length (species (core m)) \<le> j \<and> j < length dNidt \<longrightarrow> dNidt ! j \<le> dNidt ! i) \<and>
           isModelValid getRate m P V T Ni stoichiometry =
             (if dNidt ! i > fluxTolerance m *
                   sqrt (sum_list (map (\<lambda>x. x ^ 2) (take (length (reactions (core m))) rxnRates)))
              then (if i < length (species (core m) @ species (edge m))
                    then Inr (False, Some ((species (core m) @ species (edge m)) ! i))
                    else Inl IndexError)
              else Inr (True, None))"
proof -
  let ?n = "length (species (core m))"
  let ?fl = "drop ?n dNidt"
  let ?ts = "map (\<lambda>(i, value). (value, i + ?n)) (enumerate 0 ?fl)"
  from ne have "?ts \<noteq> []" by (simp add: enumerate_eq_zip)
  from py_max_tuple [OF this, of nat_gt]
  obtain p where p: "py_max (tuple_gt nat_gt) ?ts = Inr p"
    and mem: "p \<in> set ?ts" and top: "\<forall>q \<in> set ?ts. fst q \<le> fst p"
    by blast
  have ts: "set ?ts = {(dNidt ! j, j) | j. ?n \<le> j \<and> j < length dNidt}"
  proof (intro set_eqI iffI)
    fix q assume "q \<in> set ?ts"
    then obtain k where k: "k < length ?fl" and q: "q = (?fl ! k, k + ?n)"
      by (auto simp add: in_set_enumerate_eq)
    from k have "?fl ! k = dNidt ! (k + ?n)" by (simp add: add.commute)
    with k q show "q \<in> {(dNidt ! j, j) | j. ?n \<le> j \<and> j < length dNidt}" by auto
  next
    fix q assume "q \<in> {(dNidt ! j, j) | j. ?n \<le> j \<and> j < length dNidt}"
    then obtain j where j: "?n \<le> j" "j < length dNidt" and q: "q = (dNidt ! j, j)" by blast
    from j have "(j - ?n, ?fl ! (j - ?n)) \<in> set (enumerate 0 ?fl)"
      by (simp add: in_set_enumerate_eq)
    moreover from j have "?fl ! (j - ?n) = dNidt ! j" by simp
    ultimately have "(j - ?n, dNidt ! j) \<in> set (enumerate 0 ?fl)" by simp
    then have "(\<lambda>(i, value). (value, i + ?n)) (j - ?n, dNidt ! j) \<in> set ?ts"
      unfolding set_map by (rule imageI)
    with j q show "q \<in> set ?ts" by simp
  qed
  from mem ts obtain i where i: "?n \<le> i" "i < length dNidt" and pi: "p = (dNidt ! i, i)" by blast
  have "\<forall>j. ?n \<le> j \<and> j < length dNidt \<longrightarrow> dNidt ! j \<le> dNidt ! i"
  proof (intro allI impI)
    fix j assume "?n \<le> j \<and> j < length dNidt"
    with ts have "(dNidt ! j, j) \<in> set ?ts" by blast
    with top pi show "dNidt ! j \<le> dNidt ! i" by fastforce
  qed
  moreover from rr dn p pi
  have "isModelValid getRate m P V T Ni stoichiometry =
             (if dNidt ! i > fluxTolerance m *
                   sqrt (sum_list (map (\<lambda>x. x ^ 2) (take (length (reactions (core m))) rxnRates)))
              then (if i < length (species (core m) @ species (edge m))
                    then Inr (False, Some ((species (core m) @ species (edge m)) ! i))
                    else Inl IndexError)
              else Inr (True, None))"
    by (simp add: isModelValid_def getLists_def Let_def)
  ultimately show ?thesis using i by blast
qed


lemma getReactionRates_ok:
  assumes "length (species (core m)) \<le> length Ni"
  shows "getReactionRates getRate P V T Ni m =
           Inr (map (\<lambda>rxn. getRate rxn T P (concentrations m V Ni))
                    (reactions (core m) @ reactions (edge m)))"
  using assms by (simp add: getReactionRates_def model_getReactionRates_def getLists_def)

text \<open>The verdict of the check on the stoichiometry matrix that \<open>simulate\<close> builds.\<close>

lemma isModelValid_stoichiometry_of:
  fixes getRate :: rate_law and m :: CoreEdgeReactionModel and P V T :: real and Ni :: "real list"
  defines "Ci \<equiv> concentrations m V Ni"
  defines "flux \<equiv> core_and_edge_flux getRate m T P Ci"
  defines "charFlux \<equiv> core_rates_charFlux getRate m T P Ci"
  assumes Ni: "length (species (core m)) \<le> length Ni"
    and edge: "species (edge m) \<noteq> []"
  shows "(isModelValid getRate m P V T Ni (stoichiometry_of m) = Inr (True, None) \<and>
          (\<forall>spec \<in> set (species (edge m)). flux spec \<le> charFlux)) \<or>
         (\<exists>s \<in> set (species (edge m)).
            isModelValid getRate m P V T Ni (stoichiometry_of m) = Inr (False, Some s) \<and>
            flux s > charFlux \<and>
            (\<forall>spec \<in> set (species (edge m)). flux spec \<le> flux s))"
proof -
  let ?rate = "\<lambda>rxn. getRate rxn T P Ci"
  let ?rates = "map ?rate (reactions (core m) @ reactions (edge m))"
  let ?sl = "species (core m) @ species (edge m)"
  let ?n = "length (species (core m))"
  let ?dN = "map flux ?sl"
  have rr: "getReactionRates getRate P V T Ni m = Inr ?rates"
    unfolding Ci_def by (rule getReactionRates_ok [OF Ni])
  have dn: "numpy_dot (stoichiometry_of m) ?rates = Inr ?dN"
    unfolding flux_def core_and_edge_flux_def [abs_def] by (rule numpy_dot_stoichiometry_of)
  from edge have ne: "?n < length ?dN" by simp
  have cf: "fluxTolerance m * sqrt (sum_list (map (\<lambda>x. x ^ 2) (take (length (reactions (core m))) ?rates)))
            = charFlux"
    unfolding charFlux_def core_rates_charFlux_def by (simp add: comp_def)
  from isModelValid_verdict [OF rr dn ne]
  obtain i where i: "?n \<le> i" "i < length ?dN"
    and top: "\<forall>j. ?n \<le> j \<and> j < length ?dN \<longrightarrow> ?dN ! j \<le> ?dN ! i"
    and res: "isModelValid getRate m P V T Ni (stoichiometry_of m) =
               (if ?dN ! i > charFlux
                then (if i < length ?sl then Inr (False, Some (?sl ! i)) else Inl IndexError)
                else Inr (True, None))"
    unfolding cf by blast
  from i have il: "i < length ?sl" by simp
  then have fi: "?dN ! i = flux (?sl ! i)" by (rule nth_map)
  from i have si: "?sl ! i \<in> set (species (edge m))"
    by (simp add: nth_append)
  have all: "\<forall>spec \<in> set (species (edge m)). flux spec \<le> flux (?sl ! i)"
  proof
    fix spec assume "spec \<in> set (species (edge m))"
    then obtain k where k: "k < length (species (edge m))" and sk: "species (edge m) ! k = spec"
      by (auto simp add: in_set_conv_nth)
    from k have j: "?n \<le> ?n + k \<and> ?n + k < length ?dN" by simp
    from k have "?dN ! (?n + k) = flux (?sl ! (?n + k))" by (intro nth_map) simp
    also have "?sl ! (?n + k) = spec" using sk by (simp add: nth_append)
    finally have "?dN ! (?n + k) = flux spec" .
    with top j fi show "flux spec \<le> flux (?sl ! i)" by metis
  qed
  show ?thesis
  proof (cases "flux (?sl ! i) > charFlux")
    case True
    with res fi il have "isModelValid getRate m P V T Ni (stoichiometry_of m) = Inr (False, Some (?sl ! i))"
      by simp
    with True si all show ?thesis by blast
  next
    case False
    with res fi have "isModelValid getRate m P V T Ni (stoichiometry_of m) = Inr (True, None)"
      by simp
    moreover from False all have "\<forall>spec \<in> set (species (edge m)). flux spec \<le> charFlux"
      by force
    ultimately show ?thesis by blast
  qed
qed

text \<open>Without an edge species the check of \<open>simulate\<close> has an empty list to take the
  maximum of.\<close>

lemma isModelValid_empty_edge:
  assumes "length (species (core m)) \<le> length Ni" and "species (edge m) = []"
  shows "isModelValid getRate m P V T Ni (stoichiometry_of m) = Inl ValueError"
  using assms numpy_dot_stoichiometry_of [of m "\<lambda>rxn. getRate rxn T P (concentrations m V Ni)"]
  by (simp add: isModelValid_def getLists_def getReactionRates_ok)

section \<open>The two validity checks compared\<close>

text \<open>Claim C1, as amended. For every model state with at least one edge species and every
  condition (pressure, volume, temperature and a mole number for every core species), the
  validity check that \<open>simulate\<close> runs takes the net flux of each edge species from all
  reactions of the model: the sum over the core reactions plus the sum over the edge
  reactions of the rate times the stoichiometric coefficient. Only the characteristic
  flux comes from the core reactions alone. The check reports the model valid when no
  edge species has a flux above the characteristic flux, and otherwise reports it
  invalid together with an edge species of maximum flux.\<close>

theorem isModelValid_flux_from_core_and_edge_reactions:
  assumes "length (species (core m)) \<le> length Ni" and "species (edge m) \<noteq> []"
  shows "(isModelValid getRate m P V T Ni (stoichiometry_of m) = Inr (True, None) \<and>
          (\<forall>spec \<in> set (species (edge m)).
             core_and_edge_flux getRate m T P (concentrations m V Ni) spec
               \<le> core_rates_charFlux getRate m T P (concentrations m V Ni))) \<or>
         (\<exists>s \<in> set (species (edge m)).
            isModelValid getRate m P V T Ni (stoichiometry_of m) = Inr (False, Some s) \<and>
            core_and_edge_flux getRate m T P (concentrations m V Ni) s
              > core_rates_charFlux getRate m T P (concentrations m V Ni) \<and>
            (\<forall>spec \<in> set (species (edge m)).
               core_and_edge_flux getRate m T P (concentrations m V Ni) spec
                 \<le> core_and_edge_flux getRate m T P (concentrations m V Ni) s))"
  using assms by (rule isModelValid_stoichiometry_of)

theorem isModelValid_flux_from_core_and_edge_reactions_witness:
  "length (species (core (make_model [spA] [] [spB] [Reaction 0 [spA] [spB]]))) \<le> length [1::real] \<and>
   species (edge (make_model [spA] [] [spB] [Reaction 0 [spA] [spB]])) \<noteq> [] \<and>
   isModelValid unit_rate (make_model [spA] [] [spB] [Reaction 0 [spA] [spB]]) 1 1 1000 [1]
     (stoichiometry_of (make_model [spA] [] [spB] [Reaction 0 [spA] [spB]])) = Inr (False, Some spB)"
proof -
  let ?m = "make_model [spA] [] [spB] [Reaction 0 [spA] [spB]]"
  have h1: "length (species (core ?m)) \<le> length [1::real]" by simp
  have h2: "species (edge ?m) \<noteq> []" by simp
  from isModelValid_flux_from_core_and_edge_reactions
         [OF h1 h2, where getRate = unit_rate and P = 1 and V = 1 and T = 1000]
  have "isModelValid unit_rate ?m 1 1 1000 [1] (stoichiometry_of ?m) = Inr (False, Some spB)"
    by (simp add: core_and_edge_flux_def core_rates_charFlux_def net_flux_def
        getStoichiometricCoefficient_def unit_rate_def)
  with h1 h2 show ?thesis by blast
qed

text \<open>Claim C1 as stated fails. With a core reaction from \<open>spA\<close> to \<open>spB\<close> and two edge
  reactions that each produce \<open>spC\<close>, all rates one, the check of \<open>simulate\<close> gives the
  edge species \<open>spC\<close> the flux 2 of the edge reactions and reports the model invalid with
  \<open>spC\<close>, while \<open>isValid\<close> on the same state and concentrations reports it valid. On a
  state that satisfies the invariants, with no core reaction at all and the edge reaction
  from \<open>spA\<close> to \<open>spB\<close>, the check of \<open>simulate\<close> reports \<open>spB\<close> and \<open>isValid\<close> raises
  ValueError.\<close>

theorem validity_checks_disagree:
  "concentrations (make_model [spA] [Reaction 0 [spA] [spB]] [spB, spC] [Reaction 1 [spA] [spC], Reaction 2 [spA, spA] [spC]])
     1 [1] = conc_A \<and>
   isModelValid unit_rate (make_model [spA] [Reaction 0 [spA] [spB]] [spB, spC] [Reaction 1 [spA] [spC], Reaction 2 [spA, spA] [spC]])
     1 1 1000 [1]
     (stoichiometry_of (make_model [spA] [Reaction 0 [spA] [spB]] [spB, spC] [Reaction 1 [spA] [spC], Reaction 2 [spA, spA] [spC]]))
     = Inr (False, Some spC) \<and>
   isValid unit_rate (make_model [spA] [Reaction 0 [spA] [spB]] [spB, spC] [Reaction 1 [spA] [spC], Reaction 2 [spA, spA] [spC]])
     1000 1 conc_A = Inr True \<and>
   invariants (make_model [spA] [] [spB] [Reaction 0 [spA] [spB]]) \<and>
   isModelValid unit_rate (make_model [spA] [] [spB] [Reaction 0 [spA] [spB]]) 1 1 1000 [1]
     (stoichiometry_of (make_model [spA] [] [spB] [Reaction 0 [spA] [spB]])) = Inr (False, Some spB) \<and>
   isValid unit_rate (make_model [spA] [] [spB] [Reaction 0 [spA] [spB]]) 1000 1 conc_A
     = Inl ValueError"
proof (intro conjI)
  show "concentrations (make_model [spA] [Reaction 0 [spA] [spB]] [spB, spC] [Reaction 1 [spA] [spC], Reaction 2 [spA, spA] [spC]])
     1 [1] = conc_A"
    by (simp add: concentrations_def conc_A_def)
  show "isModelValid unit_rate (make_model [spA] [Reaction 0 [spA] [spB]] [spB, spC] [Reaction 1 [spA] [spC], Reaction 2 [spA, spA] [spC]])
     1 1 1000 [1]
     (stoichiometry_of (make_model [spA] [Reaction 0 [spA] [spB]] [spB, spC] [Reaction 1 [spA] [spC], Reaction 2 [spA, spA] [spC]]))
     = Inr (False, Some spC)"
    by (simp add: isModelValid_def getLists_def getReactionRates_def model_getReactionRates_def
        stoichiometry_of_def numpy_dot_def getStoichiometricCoefficient_def unit_rate_def
        enumerate_eq_zip tuple_gt_def nat_gt_def)
  show "isValid unit_rate (make_model [spA] [Reaction 0 [spA] [spB]] [spB, spC] [Reaction 1 [spA] [spC], Reaction 2 [spA, spA] [spC]])
     1000 1 conc_A = Inr True"
    by (simp add: isValid_def rxnFlux_of_def charFlux_of_def unit_rate_def tuple_gt_def species_gt_def)
  show "invariants (make_model [spA] [] [spB] [Reaction 0 [spA] [spB]])"
    by (simp add: invariants_def invariant1_def invariant2_def invariant3_def invariant4_def
        species_of_def)
  show "isModelValid unit_rate (make_model [spA] [] [spB] [Reaction 0 [spA] [spB]]) 1 1 1000 [1]
     (stoichiometry_of (make_model [spA] [] [spB] [Reaction 0 [spA] [spB]])) = Inr (False, Some spB)"
    by (simp add: isModelValid_def getLists_def getReactionRates_def model_getReactionRates_def
        stoichiometry_of_def numpy_dot_def getStoichiometricCoefficient_def unit_rate_def
        enumerate_eq_zip tuple_gt_def nat_gt_def)
  show "isValid unit_rate (make_model [spA] [] [spB] [Reaction 0 [spA] [spB]]) 1000 1 conc_A
     = Inl ValueError"
    by (simp add: isValid_def rxnFlux_of_def charFlux_of_def)
qed


text \<open>Claim C2. The claim has \<open>isValid\<close> return a pair: false with the edge species of
  maximum flux, or true with none. The code returns a bare boolean on both paths. On the
  model below the core reaction from \<open>spA\<close> to twice \<open>spB\<close> gives the edge species \<open>spB\<close>
  the flux 2, above the characteristic flux 1, and the result of \<open>isValid\<close> is the value
  False alone: the species of maximum flux is not part of it.\<close>

theorem isValid_returns_bare_boolean:
  "isValid unit_rate (make_model [spA] [Reaction 0 [spA] [spB, spB]] [spB] []) 1000 1 conc_A
     = Inr False \<and>
   touched_edge_species (make_model [spA] [Reaction 0 [spA] [spB, spB]] [spB] []) = [spB] \<and>
   core_flux unit_rate (make_model [spA] [Reaction 0 [spA] [spB, spB]] [spB] []) 1000 1 conc_A spB = 2 \<and>
   charFlux_of unit_rate (make_model [spA] [Reaction 0 [spA] [spB, spB]] [spB] []) 1000 1 conc_A = 1"
proof (intro conjI)
  show "isValid unit_rate (make_model [spA] [Reaction 0 [spA] [spB, spB]] [spB] []) 1000 1 conc_A
     = Inr False"
    by (simp add: isValid_def rxnFlux_of_def charFlux_of_def unit_rate_def tuple_gt_def species_gt_def)
  show "touched_edge_species (make_model [spA] [Reaction 0 [spA] [spB, spB]] [spB] []) = [spB]"
    by (simp add: touched_edge_species_def species_of_def)
  show "core_flux unit_rate (make_model [spA] [Reaction 0 [spA] [spB, spB]] [spB] []) 1000 1 conc_A spB = 2"
    by (simp add: core_flux_def net_flux_def getStoichiometricCoefficient_def unit_rate_def)
  show "charFlux_of unit_rate (make_model [spA] [Reaction 0 [spA] [spB, spB]] [spB] []) 1000 1 conc_A = 1"
    by (simp add: charFlux_of_def rxnFlux_of_def unit_rate_def)
qed

text \<open>Claim C3. The claim has the validity check return the valid result when no edge
  species receives any flux. The maximum is taken without a guard: seeding the model
  with one species for which no reaction is found leaves the edge empty, and on that
  model \<open>isValid\<close> raises ValueError, the check of \<open>simulate\<close> raises ValueError, and so
  \<open>simulate\<close> ends with ValueError before its first integration.\<close>

theorem validity_check_fails_on_empty_edge:
  "initialize no_reactions [spA] (CoreEdgeReactionModel_init None None) = make_model [spA] [] [] [] \<and>
   isValid unit_rate (make_model [spA] [] [] []) 1000 1 conc_A = Inl ValueError \<and>
   isModelValid unit_rate (make_model [spA] [] [] []) 1 1 1000 [1]
     (stoichiometry_of (make_model [spA] [] [] [])) = Inl ValueError \<and>
   simulate unit_rate quartering batch_reactor (make_model [spA] [] [] []) = Some (Inl ValueError, 0)"
proof (intro conjI)
  show "initialize no_reactions [spA] (CoreEdgeReactionModel_init None None) = make_model [spA] [] [] []"
    by (rule initialize_without_reactions)
  show "isValid unit_rate (make_model [spA] [] [] []) 1000 1 conc_A = Inl ValueError"
    by (simp add: isValid_def rxnFlux_of_def charFlux_of_def)
  show v: "isModelValid unit_rate (make_model [spA] [] [] []) 1 1 1000 [1]
     (stoichiometry_of (make_model [spA] [] [] [])) = Inl ValueError"
    by (simp add: isModelValid_def getLists_def getReactionRates_def model_getReactionRates_def
        stoichiometry_of_def numpy_dot_def)
  show "simulate unit_rate quartering batch_reactor (make_model [spA] [] [] []) = Some (Inl ValueError, 0)"
    by (simp add: simulate_def batch_reactor_def getPressure_def getTemperature_def isIsobaric_def
        isIsothermal_def setIsobaric_def setIsothermal_def conc_A_def v)
qed

text \<open>Claim C4. The claim has invariant (3) hold after \<open>initialize\<close>: no reaction whose
  reactants and products are all core species remains an edge reaction. \<open>initialize\<close>
  adds every discovered reaction to the edge without the test that \<open>enlarge\<close> makes.
  Seeding \<open>spA\<close> and then \<open>spB\<close>, with the reaction from \<open>spB\<close> to \<open>spA\<close> found for \<open>spB\<close>,
  leaves that reaction among the edge reactions although both of its species are core
  species; adding \<open>spB\<close> by \<open>enlarge\<close> instead puts the same reaction into the core.\<close>

theorem initialize_leaves_core_reaction_in_edge:
  "initialize isomerisation_of_B [spA, spB] (CoreEdgeReactionModel_init None None) =
     make_model [spA, spB] [] [] [Reaction 0 [spB] [spA]] \<and>
   \<not> invariant3 (initialize isomerisation_of_B [spA, spB] (CoreEdgeReactionModel_init None None)) \<and>
   \<not> invariants (initialize isomerisation_of_B [spA, spB] (CoreEdgeReactionModel_init None None)) \<and>
   enlarge isomerisation_of_B spB
     (initialize isomerisation_of_B [spA] (CoreEdgeReactionModel_init None None)) =
     make_model [spA, spB] [Reaction 0 [spB] [spA]] [] []"
proof -
  have i: "initialize isomerisation_of_B [spA, spB] (CoreEdgeReactionModel_init None None) =
     make_model [spA, spB] [] [] [Reaction 0 [spB] [spA]]"
    by (simp add: fresh_model make_model_eq initialize_def initialize_species1_def
        initialize_rxn_def initialize_spec_def addSpeciesToCore_def addReactionToEdge_def
        isomerisation_of_B_def Let_def)
  have n: "\<not> invariant3 (make_model [spA, spB] [] [] [Reaction 0 [spB] [spA]])"
    by (simp add: invariant3_def species_of_def)
  have e: "enlarge isomerisation_of_B spB
     (initialize isomerisation_of_B [spA] (CoreEdgeReactionModel_init None None)) =
     make_model [spA, spB] [Reaction 0 [spB] [spA]] [] []"
    unfolding initialize_seed_A
    by (simp add: make_model_eq enlarge_def enlarge_rxn_def enlarge_spec_def addSpeciesToCore_def
        addReactionToCore_def isomerisation_of_B_def Let_def)
  from i n e show ?thesis by (simp add: invariants_def)
qed

theorem initialize_leaves_core_reaction_in_edge_witness:
  "Reaction 0 [spB] [spA]
     \<in> set (reactions (edge (initialize isomerisation_of_B [spA, spB]
                                 (CoreEdgeReactionModel_init None None)))) \<and>
   species_of (Reaction 0 [spB] [spA])
     \<subseteq> set (species (core (initialize isomerisation_of_B [spA, spB]
                                  (CoreEdgeReactionModel_init None None))))"
  using initialize_leaves_core_reaction_in_edge by (simp add: species_of_def)


lemma Max_image_le:
  "xs \<noteq> [] \<Longrightarrow> (Max (f ` set xs) \<le> (c::real)) = (\<forall>x \<in> set xs. f x \<le> c)"
  by (subst Max_le_iff) auto

text \<open>Claim C5, as amended. For every model state and conditions, \<open>isValid\<close> compares
  strictly: with some edge species touched by a core reaction, it reports the model valid
  exactly when the maximum of their fluxes, taken by signed value, is at most the
  characteristic flux, in particular when it equals the characteristic flux, and invalid
  exactly when the maximum is strictly greater. The characteristic flux is the flux
  tolerance times the root of the sum, over the core reactions, of the squared rates.
  When the flux tolerance is not negative, fluxes that are all negative or zero, however
  large in magnitude, leave the model valid. The check that \<open>simulate\<close> runs compares in
  the same way.\<close>

theorem validity_checks_compare_strictly:
  "(touched_edge_species m \<noteq> [] \<longrightarrow>
      (isValid getRate m T P conc = Inr True) =
        (Max (core_flux getRate m T P conc ` set (touched_edge_species m))
           \<le> fluxTolerance m * sqrt (\<Sum>rxn \<in> set (reactions (core m)). (getRate rxn T P conc) ^ 2)) \<and>
      (isValid getRate m T P conc = Inr False) =
        (Max (core_flux getRate m T P conc ` set (touched_edge_species m))
           > fluxTolerance m * sqrt (\<Sum>rxn \<in> set (reactions (core m)). (getRate rxn T P conc) ^ 2)) \<and>
      (Max (core_flux getRate m T P conc ` set (touched_edge_species m))
           = fluxTolerance m * sqrt (\<Sum>rxn \<in> set (reactions (core m)). (getRate rxn T P conc) ^ 2)
         \<longrightarrow> isValid getRate m T P conc = Inr True) \<and>
      (0 \<le> fluxTolerance m \<and>
       Max (core_flux getRate m T P conc ` set (touched_edge_species m)) \<le> 0
         \<longrightarrow> isValid getRate m T P conc = Inr True)) \<and>
   (length (species (core m)) \<le> length Ni \<and> species (edge m) \<noteq> [] \<longrightarrow>
      (isModelValid getRate m P V T Ni (stoichiometry_of m) = Inr (True, None)) =
        (Max (core_and_edge_flux getRate m T P (concentrations m V Ni) ` set (species (edge m)))
           \<le> fluxTolerance m *
              sqrt (\<Sum>rxn \<leftarrow> reactions (core m). (getRate rxn T P (concentrations m V Ni)) ^ 2)) \<and>
      (\<exists>s. isModelValid getRate m P V T Ni (stoichiometry_of m) = Inr (False, Some s)) =
        (Max (core_and_edge_flux getRate m T P (concentrations m V Ni) ` set (species (edge m)))
           > fluxTolerance m *
              sqrt (\<Sum>rxn \<leftarrow> reactions (core m). (getRate rxn T P (concentrations m V Ni)) ^ 2)) \<and>
      (Max (core_and_edge_flux getRate m T P (concentrations m V Ni) ` set (species (edge m)))
           = fluxTolerance m *
              sqrt (\<Sum>rxn \<leftarrow> reactions (core m). (getRate rxn T P (concentrations m V Ni)) ^ 2)
         \<longrightarrow> isModelValid getRate m P V T Ni (stoichiometry_of m) = Inr (True, None)) \<and>
      (0 \<le> fluxTolerance m \<and>
       Max (core_and_edge_flux getRate m T P (concentrations m V Ni) ` set (species (edge m))) \<le> 0
         \<longrightarrow> isModelValid getRate m P V T Ni (stoichiometry_of m) = Inr (True, None)))"
proof (intro conjI impI)
  assume t: "touched_edge_species m \<noteq> []"
  let ?M = "Max (core_flux getRate m T P conc ` set (touched_edge_species m))"
  let ?c = "fluxTolerance m * sqrt (\<Sum>rxn \<in> set (reactions (core m)). (getRate rxn T P conc) ^ 2)"
  have cs: "charFlux_of getRate m T P conc = ?c" by (rule charFlux_of_sum)
  have v: "isValid getRate m T P conc = Inr (?M \<le> ?c)"
    using t unfolding cs [symmetric] by (simp add: isValid_core_flux Max_image_le)
  show "(isValid getRate m T P conc = Inr True) = (?M \<le> ?c)" using v by simp
  show "(isValid getRate m T P conc = Inr False) = (?M > ?c)" using v by (simp add: not_le)
  show "isValid getRate m T P conc = Inr True" if "?M = ?c" using v that by simp
  show "isValid getRate m T P conc = Inr True" if "0 \<le> fluxTolerance m \<and> ?M \<le> 0"
  proof -
    from that have "0 \<le> ?c" by (intro mult_nonneg_nonneg real_sqrt_ge_zero sum_nonneg) auto
    with that have "?M \<le> ?c" by linarith
    with v show ?thesis by simp
  qed
next
  assume h: "length (species (core m)) \<le> length Ni \<and> species (edge m) \<noteq> []"
  let ?M = "Max (core_and_edge_flux getRate m T P (concentrations m V Ni) ` set (species (edge m)))"
  let ?c = "fluxTolerance m *
              sqrt (\<Sum>rxn \<leftarrow> reactions (core m). (getRate rxn T P (concentrations m V Ni)) ^ 2)"
  let ?r = "isModelValid getRate m P V T Ni (stoichiometry_of m)"
  have cs: "core_rates_charFlux getRate m T P (concentrations m V Ni) = ?c"
    by (simp add: core_rates_charFlux_def)
  from h have Ni: "length (species (core m)) \<le> length Ni" and e: "species (edge m) \<noteq> []"
    by simp_all
  note d = isModelValid_stoichiometry_of [OF Ni e, of getRate P V T, unfolded cs]
  have le: "(?M \<le> ?c) =
      (\<forall>spec \<in> set (species (edge m)).
          core_and_edge_flux getRate m T P (concentrations m V Ni) spec \<le> ?c)"
    using e by (rule Max_image_le)
  have v: "(?r = Inr (True, None) \<and> ?M \<le> ?c) \<or> ((\<exists>s. ?r = Inr (False, Some s)) \<and> ?M > ?c)"
  proof -
    from d show ?thesis
    proof
      assume "?r = Inr (True, None) \<and>
        (\<forall>spec \<in> set (species (edge m)).
            core_and_edge_flux getRate m T P (concentrations m V Ni) spec \<le> ?c)"
      with le show ?thesis by blast
    next
      assume "\<exists>s \<in> set (species (edge m)). ?r = Inr (False, Some s) \<and>
            core_and_edge_flux getRate m T P (concentrations m V Ni) s > ?c \<and>
            (\<forall>spec \<in> set (species (edge m)).
               core_and_edge_flux getRate m T P (concentrations m V Ni) spec
                 \<le> core_and_edge_flux getRate m T P (concentrations m V Ni) s)"
      then obtain s where s: "s \<in> set (species (edge m))" and r: "?r = Inr (False, Some s)"
        and g: "core_and_edge_flux getRate m T P (concentrations m V Ni) s > ?c" by blast
      from s g le have "\<not> ?M \<le> ?c" by force
      with r show ?thesis by auto
    qed
  qed
  show "(?r = Inr (True, None)) = (?M \<le> ?c)" using v by auto
  show "(\<exists>s. ?r = Inr (False, Some s)) = (?M > ?c)" using v by auto
  show "?r = Inr (True, None)" if "?M = ?c" using v that by auto
  show "?r = Inr (True, None)" if "0 \<le> fluxTolerance m \<and> ?M \<le> 0"
  proof -
    from that have "0 \<le> ?c"
      by (intro mult_nonneg_nonneg real_sqrt_ge_zero sum_list_nonneg) auto
    with that have "?M \<le> ?c" by linarith
    with v show ?thesis by auto
  qed
qed

lemma sqrt_hundred: "sqrt 100 = 10"
proof -
  have "sqrt ((10::real) ^ 2) = 10" by simp
  then show ?thesis by simp
qed

text \<open>The witness is the model of one core reaction from \<open>spA\<close> and \<open>spB\<close> to the edge
  species \<open>spC\<close> with rate ten and tolerance one: the flux of \<open>spC\<close> and the characteristic
  flux are both ten, and both checks report the model valid. On the model with the core
  reaction from \<open>spA\<close> to twice \<open>spB\<close>, rate one, the flux 2 of \<open>spB\<close> is above the
  characteristic flux 1 and \<open>isValid\<close> reports the model invalid.\<close>

theorem validity_checks_compare_strictly_witness:
  "touched_edge_species (make_model [spA, spB] [Reaction 0 [spA, spB] [spC]] [spC] []) \<noteq> [] \<and>
   Max (core_flux ten_rate (make_model [spA, spB] [Reaction 0 [spA, spB] [spC]] [spC] []) 1000 1 conc_A `
        set (touched_edge_species (make_model [spA, spB] [Reaction 0 [spA, spB] [spC]] [spC] []))) = 10 \<and>
   fluxTolerance (make_model [spA, spB] [Reaction 0 [spA, spB] [spC]] [spC] []) *
     sqrt (\<Sum>rxn \<in> set (reactions (core (make_model [spA, spB] [Reaction 0 [spA, spB] [spC]] [spC] []))).
             (ten_rate rxn 1000 1 conc_A) ^ 2) = 10 \<and>
   isValid ten_rate (make_model [spA, spB] [Reaction 0 [spA, spB] [spC]] [spC] []) 1000 1 conc_A = Inr True \<and>
   length (species (core (make_model [spA, spB] [Reaction 0 [spA, spB] [spC]] [spC] []))) \<le> length [1::real, 0] \<and>
   species (edge (make_model [spA, spB] [Reaction 0 [spA, spB] [spC]] [spC] [])) \<noteq> [] \<and>
   isModelValid ten_rate (make_model [spA, spB] [Reaction 0 [spA, spB] [spC]] [spC] []) 1 1 1000 [1, 0]
     (stoichiometry_of (make_model [spA, spB] [Reaction 0 [spA, spB] [spC]] [spC] [])) = Inr (True, None) \<and>
   touched_edge_species (make_model [spA] [Reaction 0 [spA] [spB, spB]] [spB] []) \<noteq> [] \<and>
   isValid unit_rate (make_model [spA] [Reaction 0 [spA] [spB, spB]] [spB] []) 1000 1 conc_A = Inr False"
proof -
  let ?m = "make_model [spA, spB] [Reaction 0 [spA, spB] [spC]] [spC] []"
  let ?n = "make_model [spA] [Reaction 0 [spA] [spB, spB]] [spB] []"
  have t: "touched_edge_species ?m = [spC]"
    by (simp add: touched_edge_species_def species_of_def)
  have f: "core_flux ten_rate ?m 1000 1 conc_A spC = 10"
    by (simp add: core_flux_def net_flux_def getStoichiometricCoefficient_def ten_rate_def)
  have h1: "touched_edge_species ?m \<noteq> []" using t by simp
  have h2: "Max (core_flux ten_rate ?m 1000 1 conc_A ` set (touched_edge_species ?m)) = 10"
    by (simp add: t f)
  have c: "fluxTolerance ?m *
             sqrt (\<Sum>rxn \<in> set (reactions (core ?m)). (ten_rate rxn 1000 1 conc_A) ^ 2) = 10"
    by (simp add: ten_rate_def sqrt_hundred)
  have h3: "length (species (core ?m)) \<le> length [1::real, 0]" by simp
  have h4: "species (edge ?m) \<noteq> []" by simp
  have g: "core_and_edge_flux ten_rate ?m 1000 1 (concentrations ?m 1 [1, 0]) spC = 10"
    by (simp add: core_and_edge_flux_def net_flux_def getStoichiometricCoefficient_def ten_rate_def)
  have h5: "Max (core_and_edge_flux ten_rate ?m 1000 1 (concentrations ?m 1 [1, 0]) `
                 set (species (edge ?m))) =
            fluxTolerance ?m *
              sqrt (\<Sum>rxn \<leftarrow> reactions (core ?m). (ten_rate rxn 1000 1 (concentrations ?m 1 [1, 0])) ^ 2)"
    by (simp add: g ten_rate_def sqrt_hundred)
  note inst = validity_checks_compare_strictly
    [where m = ?m and getRate = ten_rate and T = 1000 and P = 1 and conc = conc_A
       and V = 1 and Ni = "[1, 0]"]
  from inst h1 h2 c have a: "isValid ten_rate ?m 1000 1 conc_A = Inr True" by presburger
  from inst h3 h4 h5
  have b: "isModelValid ten_rate ?m 1 1 1000 [1, 0] (stoichiometry_of ?m) = Inr (True, None)"
    by blast
  have k1: "touched_edge_species ?n = [spB]"
    by (simp add: touched_edge_species_def species_of_def)
  have k2: "core_flux unit_rate ?n 1000 1 conc_A spB = 2"
    by (simp add: core_flux_def net_flux_def getStoichiometricCoefficient_def unit_rate_def)
  have k3: "touched_edge_species ?n \<noteq> []" using k1 by simp
  have k4: "Max (core_flux unit_rate ?n 1000 1 conc_A ` set (touched_edge_species ?n))
              > fluxTolerance ?n *
                sqrt (\<Sum>rxn \<in> set (reactions (core ?n)). (unit_rate rxn 1000 1 conc_A) ^ 2)"
    by (simp add: k1 k2 unit_rate_def)
  note inst2 = validity_checks_compare_strictly
    [where m = ?n and getRate = unit_rate and T = 1000 and P = 1 and conc = conc_A]
  from inst2 k3 k4 have e: "isValid unit_rate ?n 1000 1 conc_A = Inr False" by blast
  from h1 h2 c a h3 h4 b k3 e show ?thesis by blast
qed

text \<open>Claim C5 as stated fails in its last part for a negative flux tolerance. With the
  tolerance set to minus one and the core reactions from \<open>spA\<close> and \<open>spC\<close> to \<open>spB\<close> and from
  \<open>spA\<close> to \<open>spB\<close>, both of rate one, the edge species \<open>spC\<close> is only consumed: its flux is
  minus one, the only flux there is, and it lies above the characteristic flux, minus
  the root of two. \<open>isValid\<close> reports the model invalid, and so does the check of
  \<open>simulate\<close>.\<close>

theorem negative_flux_invalid_under_negative_tolerance:
  "fluxTolerance ((make_model [spA, spB] [Reaction 0 [spA, spC] [spB], Reaction 1 [spA] [spB]] [spC] [])
                    \<lparr>fluxTolerance := - 1\<rparr>) = - 1 \<and>
   touched_edge_species ((make_model [spA, spB] [Reaction 0 [spA, spC] [spB], Reaction 1 [spA] [spB]] [spC] [])
                    \<lparr>fluxTolerance := - 1\<rparr>) = [spC] \<and>
   core_flux unit_rate ((make_model [spA, spB] [Reaction 0 [spA, spC] [spB], Reaction 1 [spA] [spB]] [spC] [])
                    \<lparr>fluxTolerance := - 1\<rparr>) 1000 1 conc_A spC = - 1 \<and>
   charFlux_of unit_rate ((make_model [spA, spB] [Reaction 0 [spA, spC] [spB], Reaction 1 [spA] [spB]] [spC] [])
                    \<lparr>fluxTolerance := - 1\<rparr>) 1000 1 conc_A = - sqrt 2 \<and>
   isValid unit_rate ((make_model [spA, spB] [Reaction 0 [spA, spC] [spB], Reaction 1 [spA] [spB]] [spC] [])
                    \<lparr>fluxTolerance := - 1\<rparr>) 1000 1 conc_A = Inr False \<and>
   isModelValid unit_rate ((make_model [spA, spB] [Reaction 0 [spA, spC] [spB], Reaction 1 [spA] [spB]] [spC] [])
                    \<lparr>fluxTolerance := - 1\<rparr>) 1 1 1000 [1, 0]
     (stoichiometry_of ((make_model [spA, spB] [Reaction 0 [spA, spC] [spB], Reaction 1 [spA] [spB]] [spC] [])
                    \<lparr>fluxTolerance := - 1\<rparr>)) = Inr (False, Some spC)"
proof (intro conjI)
  let ?m = "(make_model [spA, spB] [Reaction 0 [spA, spC] [spB], Reaction 1 [spA] [spB]] [spC] [])
                    \<lparr>fluxTolerance := - 1\<rparr>"
  show "fluxTolerance ?m = - 1" by simp
  show "touched_edge_species ?m = [spC]"
    by (simp add: touched_edge_species_def species_of_def)
  show "core_flux unit_rate ?m 1000 1 conc_A spC = - 1"
    by (simp add: core_flux_def net_flux_def getStoichiometricCoefficient_def unit_rate_def)
  show "charFlux_of unit_rate ?m 1000 1 conc_A = - sqrt 2"
    by (simp add: charFlux_of_def rxnFlux_of_def unit_rate_def)
  show "isValid unit_rate ?m 1000 1 conc_A = Inr False"
    by (simp add: isValid_def rxnFlux_of_def charFlux_of_def unit_rate_def tuple_gt_def species_gt_def)
  show "isModelValid unit_rate ?m 1 1 1000 [1, 0] (stoichiometry_of ?m) = Inr (False, Some spC)"
    by (simp add: isModelValid_def getLists_def getReactionRates_def model_getReactionRates_def
        stoichiometry_of_def numpy_dot_def getStoichiometricCoefficient_def unit_rate_def
        enumerate_eq_zip tuple_gt_def nat_gt_def)
qed


section \<open>The time loop of simulate\<close>

lemma next_span_cases:
  assumes "next_span getRate odeint m st y0 s = Some s'"
  obtains t0 tf y y' tcur sp where
    "s = (t0, tf, y)" "odeint y t0 tf = (y', tcur)" "t0 < 1" "3 < length y'" "3 < length y0"
    "isModelValid getRate m (y' ! 0) (y' ! 1) (y' ! 2) (drop 3 y') st = Inr (True, sp)"
    "\<not> y' ! 3 < 0.1 * y0 ! 3" "s' = (tf, tcur * 1.1, y')"
proof -
  obtain t0 tf y where s: "s = (t0, tf, y)" by (cases s) auto
  obtain y' tcur where o: "odeint y t0 tf = (y', tcur)" by (cases "odeint y t0 tf") auto
  from assms s o have c: "t0 < 1" "3 < length y'" "3 < length y0"
    "map_sum (\<lambda>e. e) fst (isModelValid getRate m (y' ! 0) (y' ! 1) (y' ! 2) (drop 3 y') st) = Inr True"
    "\<not> y' ! 3 < 0.1 * y0 ! 3" and s': "s' = (tf, tcur * 1.1, y')"
    by (auto simp add: next_span_def split: if_splits)
  from c(4) obtain sp
    where "isModelValid getRate m (y' ! 0) (y' ! 1) (y' ! 2) (drop 3 y') st = Inr (True, sp)"
    by (cases "isModelValid getRate m (y' ! 0) (y' ! 1) (y' ! 2) (drop 3 y') st") auto
  with s o c s' show ?thesis by (intro that)
qed

text \<open>A span that passes the validity check without depleting the first core species
  sends the loop into its next iteration, with one more call of the integrator.\<close>

lemma simulate_loop_next_span:
  assumes "next_span getRate odeint m st y0 (t0, tf, y) = Some (t0', tf', y')"
  shows "simulate_loop getRate odeint m st y0 n t0 tf y =
         simulate_loop getRate odeint m st y0 (Suc n) t0' tf' y'"
  using assms
proof (rule next_span_cases)
  fix a b c z tcur sp
  assume "(t0, tf, y) = (a, b, c)" and o: "odeint c a b = (z, tcur)" and "a < 1"
    and l: "3 < length z" "3 < length y0"
    and v: "isModelValid getRate m (z ! 0) (z ! 1) (z ! 2) (drop 3 z) st = Inr (True, sp)"
    and d: "\<not> z ! 3 < 0.1 * y0 ! 3" and s': "(t0', tf', y') = (b, tcur * 1.1, z)"
  then have e: "a = t0" "b = tf" "c = y" "t0 < 1" by simp_all
  from s' e have e': "t0' = tf" "tf' = tcur * 1.1" "y' = z" by simp_all
  from o e l v d show ?thesis
    unfolding e' by (subst simulate_loop.simps) simp
qed

lemma simulate_loop_spans:
  assumes "spans getRate odeint m st y0 k s = Some s'"
  shows "simulate_loop getRate odeint m st y0 n (fst s) (fst (snd s)) (snd (snd s)) =
         simulate_loop getRate odeint m st y0 (n + k) (fst s') (fst (snd s')) (snd (snd s'))"
  using assms
proof (induction k arbitrary: s n)
  case 0
  then show ?case by simp
next
  case (Suc k)
  from Suc.prems obtain s1 where n1: "next_span getRate odeint m st y0 s = Some s1"
    and r: "spans getRate odeint m st y0 k s1 = Some s'"
    by (auto split: option.splits)
  from n1 have "next_span getRate odeint m st y0 (fst s, fst (snd s), snd (snd s)) =
                  Some (fst s1, fst (snd s1), snd (snd s1))" by simp
  from simulate_loop_next_span [OF this, of n] Suc.IH [OF r, of "Suc n"]
  show ?case by simp
qed

lemma simulate_loop_depleted:
  assumes "t0 < 1" and "odeint y t0 tf = (y', tcur)" and "3 < length y'" and "3 < length y0"
    and "isModelValid getRate m (y' ! 0) (y' ! 1) (y' ! 2) (drop 3 y') st = Inr (True, sp)"
    and "y' ! 3 < 0.1 * y0 ! 3"
  shows "simulate_loop getRate odeint m st y0 n t0 tf y = Some (Inr (True, None), Suc n)"
  using assms by (subst simulate_loop.simps) simp

lemma simulate_loop_invalid:
  assumes "t0 < 1" and "odeint y t0 tf = (y', tcur)" and "3 < length y'"
    and "isModelValid getRate m (y' ! 0) (y' ! 1) (y' ! 2) (drop 3 y') st = Inr (False, sp)"
  shows "simulate_loop getRate odeint m st y0 n t0 tf y = Some (Inr (False, sp), Suc n)"
  using assms by (subst simulate_loop.simps) simp

text \<open>Claim C9. Take any run of \<open>simulate\<close> that passes the seed check and then \<open>k\<close> spans
  (each integrated, found valid and not depleted), and whose next span is integrated
  from a time below the ceiling to a state with a first core species. If that span passes
  the validity check with the first core species' mole number strictly below a tenth of
  its initial value, \<open>simulate\<close> returns true with no species, having called the
  integrator \<open>k + 1\<close> times and no more. The validity check comes first: if it fails on
  that span, \<open>simulate\<close> returns false with the species reported, whatever the mole
  number.\<close>

theorem simulate_returns_on_depletion:
  assumes "pressureModel self = Some pm" and "getPressure pm 0 = Inr (Some P)"
    and "temperatureModel self = Some tm" and "getTemperature tm 0 = Inr (Some T)"
    and "species (core m) \<noteq> []"
    and "y0 = [P, 1, T] @ map (\<lambda>spec. case initialConcentration self spec of
                                          Some c \<Rightarrow> c * 1 | None \<Rightarrow> 0) (species (core m))"
    and "isModelValid getRate m P 1 T (drop 3 y0) (stoichiometry_of m) = Inr (True, sp0)"
    and "spans getRate odeint m (stoichiometry_of m) y0 k (1 / 10 ^ 20, 1 / 10 ^ 20 * 1.1, y0) =
           Some (t0, tf, y)"
    and "t0 < 1" and "odeint y t0 tf = (y', tcur)" and "3 < length y'"
  shows "(isModelValid getRate m (y' ! 0) (y' ! 1) (y' ! 2) (drop 3 y') (stoichiometry_of m)
            = Inr (True, sp) \<and> y' ! 3 < 0.1 * y0 ! 3
          \<longrightarrow> simulate getRate odeint self m = Some (Inr (True, None), Suc k)) \<and>
         (isModelValid getRate m (y' ! 0) (y' ! 1) (y' ! 2) (drop 3 y') (stoichiometry_of m)
            = Inr (False, sp)
          \<longrightarrow> simulate getRate odeint self m = Some (Inr (False, sp), Suc k))"
proof -
  let ?st = "stoichiometry_of m"
  from assms(5,6) have l0: "3 < length y0" by (cases "species (core m)") simp_all
  from assms(6) have d0: "drop 3 y0 = map (\<lambda>spec. case initialConcentration self spec of
                                          Some c \<Rightarrow> c * 1 | None \<Rightarrow> 0) (species (core m))"
    by simp
  have sim: "simulate getRate odeint self m =
             simulate_loop getRate odeint m ?st y0 0 (1 / 10 ^ 20) (1 / 10 ^ 20 * 1.1) y0"
    using assms(1-4) assms(7) [unfolded d0] assms(6)
    by (simp add: simulate_def Let_def)
  from simulate_loop_spans [OF assms(8), of 0]
  have run: "simulate getRate odeint self m = simulate_loop getRate odeint m ?st y0 k t0 tf y"
    unfolding sim by simp
  show ?thesis
  proof (intro conjI impI)
    assume a: "isModelValid getRate m (y' ! 0) (y' ! 1) (y' ! 2) (drop 3 y') ?st = Inr (True, sp) \<and>
            y' ! 3 < 0.1 * y0 ! 3"
    then have v: "isModelValid getRate m (y' ! 0) (y' ! 1) (y' ! 2) (drop 3 y') ?st = Inr (True, sp)"
      and d: "y' ! 3 < 0.1 * y0 ! 3" by blast+
    show "simulate getRate odeint self m = Some (Inr (True, None), Suc k)"
      unfolding run by (rule simulate_loop_depleted
          [where odeint = odeint and y = y and tf = tf, OF assms(9) assms(10) assms(11) l0 v d])
  next
    assume v: "isModelValid getRate m (y' ! 0) (y' ! 1) (y' ! 2) (drop 3 y') ?st = Inr (False, sp)"
    show "simulate getRate odeint self m = Some (Inr (False, sp), Suc k)"
      unfolding run by (rule simulate_loop_invalid
          [where odeint = odeint and y = y and tf = tf, OF assms(9) assms(10) assms(11) v])
  qed
qed


lemma quartering_five:
  "quartering [p, v, t, a, b] t0 tf = ([p, v, t, a / 4, b], tf)"
  by (simp add: quartering_def eval_nat_numeral)

lemma isModelValid_A_to_B:
  "isModelValid unit_rate (make_model [spA, spB] [Reaction 0 [spA] [spB]] [spC] []) p v t [a, b]
     (stoichiometry_of (make_model [spA, spB] [Reaction 0 [spA] [spB]] [spC] [])) = Inr (True, None)"
  by (simp add: isModelValid_def getLists_def getReactionRates_def model_getReactionRates_def
      stoichiometry_of_def numpy_dot_def getStoichiometricCoefficient_def unit_rate_def
      enumerate_eq_zip tuple_gt_def nat_gt_def)

theorem simulate_returns_on_depletion_witness:
  "spans unit_rate quartering (make_model [spA, spB] [Reaction 0 [spA] [spB]] [spC] [])
     (stoichiometry_of (make_model [spA, spB] [Reaction 0 [spA] [spB]] [spC] []))
     [1, 1, 1000, 1, 0] 1 (1 / 10 ^ 20, 1 / 10 ^ 20 * 1.1, [1, 1, 1000, 1, 0]) =
     Some (1 / 10 ^ 20 * 1.1, 1 / 10 ^ 20 * 1.1 * 1.1, [1, 1, 1000, 1 / 4, 0]) \<and>
   quartering [1, 1, 1000, 1 / 4, 0] (1 / 10 ^ 20 * 1.1) (1 / 10 ^ 20 * 1.1 * 1.1) =
     ([1, 1, 1000, 1 / 16, 0], 1 / 10 ^ 20 * 1.1 * 1.1) \<and>
   [1, 1, 1000, 1 / 16, 0 :: real] ! 3 < 0.1 * [1, 1, 1000, 1, 0] ! 3 \<and>
   simulate unit_rate quartering batch_reactor
     (make_model [spA, spB] [Reaction 0 [spA] [spB]] [spC] []) = Some (Inr (True, None), Suc 1)"
proof -
  let ?m = "make_model [spA, spB] [Reaction 0 [spA] [spB]] [spC] []"
  let ?y0 = "[1, 1, 1000, 1, 0 :: real]"
  let ?y1 = "[1, 1, 1000, 1 / 4, 0 :: real]"
  let ?y2 = "[1, 1, 1000, 1 / 16, 0 :: real]"
  have h1: "pressureModel batch_reactor = Some (setIsobaric 1 PressureModel_init)"
    by (simp add: batch_reactor_def)
  have h2: "getPressure (setIsobaric (1::real) PressureModel_init) 0 = Inr (Some 1)"
    by (simp add: getPressure_def isIsobaric_def setIsobaric_def)
  have h3: "temperatureModel batch_reactor = Some (setIsothermal 1000 TemperatureModel_init)"
    by (simp add: batch_reactor_def)
  have h4: "getTemperature (setIsothermal (1000::real) TemperatureModel_init) 0 = Inr (Some 1000)"
    by (simp add: getTemperature_def isIsothermal_def setIsothermal_def)
  have h5: "species (core ?m) \<noteq> []" by simp
  have h6: "?y0 = [1, 1, 1000] @ map (\<lambda>spec. case initialConcentration batch_reactor spec of
                                          Some c \<Rightarrow> c * 1 | None \<Rightarrow> 0) (species (core ?m))"
    by (simp add: batch_reactor_def conc_A_def)
  have h7: "isModelValid unit_rate ?m 1 1 1000 (drop 3 ?y0) (stoichiometry_of ?m) = Inr (True, None)"
    by (simp add: isModelValid_A_to_B)
  have h8: "spans unit_rate quartering ?m (stoichiometry_of ?m) ?y0 1
              (1 / 10 ^ 20, 1 / 10 ^ 20 * 1.1, ?y0) =
            Some (1 / 10 ^ 20 * 1.1, 1 / 10 ^ 20 * 1.1 * 1.1, ?y1)"
    by (simp add: next_span_def quartering_five isModelValid_A_to_B)
  have h9: "1 / 10 ^ 20 * 1.1 < (1::real)" by simp
  have h10: "quartering ?y1 (1 / 10 ^ 20 * 1.1) (1 / 10 ^ 20 * 1.1 * 1.1) =
               (?y2, 1 / 10 ^ 20 * 1.1 * 1.1)"
    by (simp add: quartering_five)
  have h11: "3 < length ?y2" by simp
  have v: "isModelValid unit_rate ?m (?y2 ! 0) (?y2 ! 1) (?y2 ! 2) (drop 3 ?y2) (stoichiometry_of ?m)
             = Inr (True, None)"
    by (simp add: isModelValid_A_to_B)
  have d: "?y2 ! 3 < 0.1 * ?y0 ! 3" by simp
  from simulate_returns_on_depletion [OF h1 h2 h3 h4 h5 h6 h7 h8 h9 h10 h11, of None] v d
  have "simulate unit_rate quartering batch_reactor ?m = Some (Inr (True, None), Suc 1)"
    by blast
  with h8 h10 d show ?thesis by blast
qed


end
